theory Spec2Isabelle
  imports Complex_Main "HOL-Library.Word" "HOL-Library.AList"
begin

unbundle bit_operations_syntax

section \<open>Data model (src/types/ai.ts)\<close>

text \<open>
  A JavaScript \<open>number\<close> is a finite IEEE-754 double, and every such double is a real
  number: the model carries the real value. There is neither NaN nor an infinity in the
  model. A \<open>Date\<close> is its millisecond timestamp, and the JSON round trip of a
  well-typed value through \<open>JSON.stringify\<close> and \<open>JSON.parse\<close> is the identity on the
  model.
\<close>

type_synonym number = real
type_synonym date = int

subsection \<open>The addition of the language\<close>

text \<open>
  \<open>a + b\<close> and \<open>a += b\<close> on numbers are the addition of IEEE-754 binary64: the exact
  sum, rounded to the nearest double, a tie going to the even significand. A double has
  53 significant bits; the unit in the last place of a value with binary exponent \<open>e\<close>
  is \<open>2 ^ (e - 52)\<close>, and below the normal range (\<open>e < -1022\<close>) it stays
  \<open>2 ^ (-1074)\<close>. A sum of magnitude \<open>2 ^ 1024\<close> or more (\<open>Infinity\<close> in the
  language) is outside the model.
\<close>

definition pow2 :: "int \<Rightarrow> real" where
  "pow2 k = (if 0 \<le> k then 2 ^ nat k else 1 / 2 ^ nat (- k))"

text \<open>The binary exponent of a positive value, by halving or doubling it into the
  interval from 1 to 2; the bound on the number of steps covers the range of the doubles.\<close>

fun normalise :: "nat \<Rightarrow> real \<Rightarrow> int" where
  "normalise 0 x = 0"
| "normalise (Suc n) x =
     (if 2 \<le> x then normalise n (x / 2) + 1
      else if x < 1 then normalise n (x * 2) - 1
      else 0)"

definition exponent :: "real \<Rightarrow> int" where
  "exponent x = max (- 1022) (normalise 2100 \<bar>x\<bar>)"

definition round_half_even :: "real \<Rightarrow> int" where
  "round_half_even r =
     (let f = \<lfloor>r\<rfloor>; d = r - of_int f
      in if d < 1 / 2 then f else if 1 / 2 < d then f + 1 else if even f then f else f + 1)"

definition to_double :: "real \<Rightarrow> number" where
  "to_double x =
     (if x = 0 then 0
      else (let ulp = pow2 (exponent x - 52) in of_int (round_half_even (x / ulp)) * ulp))"

definition double_add :: "number \<Rightarrow> number \<Rightarrow> number" where
  "double_add a b = to_double (a + b)"

datatype role = User | Assistant | System

datatype AIServiceType = OpenAI | ClaudeCode | OpenRouter | Aider

record message_metadata =
  tokens :: "number option"
  model :: "string option"
  cost :: "number option"
  processingTime :: "number option"

record AIMessage =
  msg_id :: string
  role :: role
  content :: string
  timestamp :: date
  msg_metadata :: "message_metadata option"

record session_metadata =
  totalTokens :: number
  totalCost :: number
  messageCount :: nat
  lastActivity :: date

text \<open>
  The session record is polymorphic in how it holds its metadata object: a stored
  session (parsed from JSON) owns the object, so \<open>'m\<close> is \<open>session_metadata\<close>; an
  in-memory session of the hook holds a reference to it, so \<open>'m\<close> is an address.
\<close>

record 'm AISession =
  sess_id :: string
  title :: string
  projectId :: string
  service :: AIServiceType
  sess_model :: "string option"
  messages :: "AIMessage list"
  createdAt :: date
  updatedAt :: date
  isActive :: bool
  metadata :: "'m option"

type_synonym stored_session = "session_metadata AISession"

section \<open>Local storage (\<open>sessionStorage\<close> of utils/aiSession, src/unnamed/part_007)\<close>

text \<open>
  What \<open>localStorage.getItem\<close> returns under one key, as the code tests it:
  \<open>Absent\<close> is \<open>null\<close> or the empty string (both fail \<open>if (!stored)\<close>), \<open>Corrupt\<close>
  is a text on which \<open>JSON.parse\<close> throws (or whose value is not of the expected
  container type, so that the first method call on it throws), \<open>Parsed v\<close> is a text
  that parses to the well-typed value \<open>v\<close>. The store accepts every write
  (\<open>setItem\<close> does not throw). The map from project ids to active session ids is a
  plain object; a project id is taken not to be the name of a member of
  \<open>Object.prototype\<close> (such as \<open>constructor\<close> or \<open>__proto__\<close>), for which a read
  answers the inherited member and a write may store nothing.
\<close>

datatype 'a item = Absent | Corrupt | Parsed 'a

text \<open>The answer of a \<open>fetch\<close> to the backend mirror: the call rejects (no backend),
  the status is not 2xx, the body does not parse, or the body parses to a value.\<close>

datatype 'a response = Unavailable | Not_ok | Bad_body | Body 'a

record session_store =
  sessions_item :: "stored_session list item"
  active_item :: "(string \<times> string) list item"

fun findIndex :: "('a \<Rightarrow> bool) \<Rightarrow> 'a list \<Rightarrow> nat option" where
  "findIndex P [] = None"
| "findIndex P (x # xs) = (if P x then Some 0 else map_option Suc (findIndex P xs))"

definition getSessions :: "string \<Rightarrow> session_store \<Rightarrow> stored_session list" where
  "getSessions pid st =
     (case sessions_item st of
        Absent \<Rightarrow> []
      | Corrupt \<Rightarrow> []
      | Parsed allSessions \<Rightarrow> filter (\<lambda>session. projectId session = pid) allSessions)"

definition saveSessions ::
  "string \<Rightarrow> stored_session list \<Rightarrow> session_store \<Rightarrow> bool \<times> session_store" where
  "saveSessions pid sessions st =
     (case sessions_item st of
        Corrupt \<Rightarrow> (False, st)
      | Absent \<Rightarrow> (True, st\<lparr>sessions_item := Parsed (filter (\<lambda>session. projectId session \<noteq> pid) [] @ sessions)\<rparr>)
      | Parsed allSessions \<Rightarrow>
          (True, st\<lparr>sessions_item := Parsed (filter (\<lambda>session. projectId session \<noteq> pid) allSessions @ sessions)\<rparr>))"

definition getSession :: "string \<Rightarrow> session_store \<Rightarrow> stored_session option" where
  "getSession sessionId st =
     (case sessions_item st of
        Absent \<Rightarrow> None
      | Corrupt \<Rightarrow> None
      | Parsed allSessions \<Rightarrow> find (\<lambda>s. sess_id s = sessionId) allSessions)"


definition or_else :: "'a option \<Rightarrow> 'a \<Rightarrow> 'a" where
  "or_else u d = (case u of None \<Rightarrow> d | Some v \<Rightarrow> v)"



definition deleteSession_storage :: "string \<Rightarrow> session_store \<Rightarrow> bool \<times> session_store" where
  "deleteSession_storage sessionId st =
     (case sessions_item st of
        Absent \<Rightarrow> (False, st)
      | Corrupt \<Rightarrow> (False, st)
      | Parsed allSessions \<Rightarrow>
          (True, st\<lparr>sessions_item := Parsed (filter (\<lambda>s. sess_id s \<noteq> sessionId) allSessions)\<rparr>))"

text \<open>JavaScript truthiness of an optional number: present and not zero.\<close>

definition truthy_number :: "number option \<Rightarrow> bool" where
  "truthy_number v = (case v of None \<Rightarrow> False | Some x \<Rightarrow> x \<noteq> 0)"

text \<open>\<open>message.metadata?.tokens\<close> and \<open>message.metadata?.cost\<close>.\<close>

definition message_tokens :: "AIMessage \<Rightarrow> number option" where
  "message_tokens message = (case msg_metadata message of None \<Rightarrow> None | Some md \<Rightarrow> tokens md)"

definition message_cost :: "AIMessage \<Rightarrow> number option" where
  "message_cost message = (case msg_metadata message of None \<Rightarrow> None | Some md \<Rightarrow> cost md)"

text \<open>
  The metadata update shared by the storage layer and the hook: the count is the new
  length of the message array, and the message's token and cost numbers, where truthy,
  are added to the totals with the addition of the language.
\<close>

definition update_metadata :: "nat \<Rightarrow> AIMessage \<Rightarrow> date \<Rightarrow> session_metadata \<Rightarrow> session_metadata" where
  "update_metadata len message now md =
     (let md1 = md\<lparr>messageCount := len, lastActivity := now\<rparr>;
          md2 = (if truthy_number (message_tokens message)
                 then md1\<lparr>totalTokens := double_add (totalTokens md1) (the (message_tokens message))\<rparr>
                 else md1)
      in (if truthy_number (message_cost message)
          then md2\<lparr>totalCost := double_add (totalCost md2) (the (message_cost message))\<rparr> else md2))"

definition push_message :: "AIMessage \<Rightarrow> date \<Rightarrow> stored_session \<Rightarrow> stored_session" where
  "push_message message now session =
     (let s1 = session\<lparr>messages := messages session @ [message], updatedAt := now\<rparr>
      in (case metadata s1 of
            None \<Rightarrow> s1
          | Some md \<Rightarrow> s1\<lparr>metadata := Some (update_metadata (length (messages s1)) message now md)\<rparr>))"


definition getActiveSession :: "string \<Rightarrow> session_store \<Rightarrow> string option" where
  "getActiveSession pid st =
     (case active_item st of
        Absent \<Rightarrow> None
      | Corrupt \<Rightarrow> None
      | Parsed activeSessionMap \<Rightarrow>
          (case map_of activeSessionMap pid of
             None \<Rightarrow> None
           | Some v \<Rightarrow> (if v = [] then None else Some v)))"

definition setActiveSession_storage :: "string \<Rightarrow> string \<Rightarrow> session_store \<Rightarrow> bool \<times> session_store" where
  "setActiveSession_storage pid sessionId st =
     (case active_item st of
        Corrupt \<Rightarrow> (False, st)
      | Absent \<Rightarrow> (True, st\<lparr>active_item := Parsed (AList.update pid sessionId [])\<rparr>)
      | Parsed activeSessionMap \<Rightarrow>
          (True, st\<lparr>active_item := Parsed (AList.update pid sessionId activeSessionMap)\<rparr>))"

definition clearActiveSession :: "string \<Rightarrow> session_store \<Rightarrow> bool \<times> session_store" where
  "clearActiveSession pid st =
     (case active_item st of
        Absent \<Rightarrow> (True, st)
      | Corrupt \<Rightarrow> (False, st)
      | Parsed activeSessionMap \<Rightarrow>
          (True, st\<lparr>active_item := Parsed (AList.delete pid activeSessionMap)\<rparr>))"








text \<open>\<open>createAISession\<close> and \<open>createAIMessage\<close>: the generated identifier, the clock and
  the locale rendering of the clock are inputs; \<open>ref\<close> is the new metadata object as
  the session holds it.\<close>

definition initial_metadata :: "date \<Rightarrow> session_metadata" where
  "initial_metadata now = \<lparr> totalTokens = 0, totalCost = 0, messageCount = 0, lastActivity = now \<rparr>"

definition createAISession ::
  "string \<Rightarrow> AIServiceType \<Rightarrow> string option \<Rightarrow> date \<Rightarrow> string \<Rightarrow> string \<Rightarrow> 'm \<Rightarrow> 'm AISession" where
  "createAISession pid svc title_opt now sessionId localeString ref =
     \<lparr> sess_id = sessionId,
       title = (case title_opt of
                  None \<Rightarrow> ''AI Session '' @ localeString
                | Some t \<Rightarrow> (if t = [] then ''AI Session '' @ localeString else t)),
       projectId = pid,
       service = svc,
       sess_model = None,
       messages = [],
       createdAt = now,
       updatedAt = now,
       isActive = True,
       metadata = Some ref \<rparr>"

definition createAIMessage ::
  "role \<Rightarrow> string \<Rightarrow> message_metadata option \<Rightarrow> string \<Rightarrow> date \<Rightarrow> AIMessage" where
  "createAIMessage r c md messageId now =
     \<lparr> msg_id = messageId, role = r, content = c, timestamp = now, msg_metadata = md \<rparr>"

definition usage_metadata :: "number \<Rightarrow> number \<Rightarrow> message_metadata" where
  "usage_metadata t c = \<lparr> tokens = Some t, model = None, cost = Some c, processingTime = None \<rparr>"

subsection \<open>A worked scenario\<close>

text \<open>A store with two sessions of two projects, and the calls of the scenario: one user
  message without usage metadata, then one assistant message reporting 10 tokens and a
  cost of 0.25.\<close>

definition scenario_session :: stored_session where
  "scenario_session = createAISession ''p1'' OpenAI None 5 ''s1'' ''1/1/1970'' (initial_metadata 5)"

definition other_session :: stored_session where
  "other_session = createAISession ''p2'' Aider (Some ''notes'') 3 ''s2'' ''1/1/1970'' (initial_metadata 3)"

definition scenario_store :: session_store where
  "scenario_store = \<lparr> sessions_item = Parsed [other_session, scenario_session], active_item = Absent \<rparr>"

definition scenario_calls :: "(AIMessage \<times> date) list" where
  "scenario_calls =
     [(createAIMessage User ''hi'' None ''m1'' 6, 6),
      (createAIMessage Assistant ''hello'' (Some (usage_metadata 10 (1/4))) ''m2'' 7, 7)]"





definition empty_store :: session_store where
  "empty_store = \<lparr> sessions_item = Absent, active_item = Absent \<rparr>"

section \<open>Rate limiter (\<open>rateLimiter\<close> of utils/aiSession, src/unnamed/part_007)\<close>

text \<open>
  One storage key per vendor tag holds the recorded request times (\<open>Date.now()\<close>, in
  milliseconds) and the time of the first request.
\<close>

record rate_data =
  requests :: "int list"
  lastReset :: int

type_synonym rate_store = "AIServiceType \<Rightarrow> rate_data item"

definition recentRequests :: "int \<Rightarrow> int list \<Rightarrow> int list" where
  "recentRequests now ts = (let oneMinuteAgo = now - 60 * 1000 in filter (\<lambda>timestamp. timestamp > oneMinuteAgo) ts)"

definition canMakeRequest :: "AIServiceType \<Rightarrow> int \<Rightarrow> rate_store \<Rightarrow> bool \<times> rate_store" where
  "canMakeRequest svc now store =
     (case store svc of
        Absent \<Rightarrow> (True, store(svc := Parsed \<lparr> requests = [now], lastReset = now \<rparr>))
      | Corrupt \<Rightarrow> (True, store)
      | Parsed data \<Rightarrow>
          (let data' = data\<lparr>requests := recentRequests now (requests data)\<rparr>
           in if length (requests data') \<ge> 60 then (False, store)
              else (True, store(svc := Parsed (data'\<lparr>requests := requests data' @ [now]\<rparr>)))))"

definition getRemainingRequests :: "AIServiceType \<Rightarrow> int \<Rightarrow> rate_store \<Rightarrow> int \<times> rate_store" where
  "getRemainingRequests svc now store =
     (case store svc of
        Absent \<Rightarrow> (60, store)
      | Corrupt \<Rightarrow> (60, store)
      | Parsed data \<Rightarrow> (max 0 (60 - int (length (recentRequests now (requests data)))), store))"

text \<open>A run of \<open>canMakeRequest\<close> calls of one vendor at the given clock readings: the
  answers in order, and the store at the end.\<close>

fun requestsAt :: "AIServiceType \<Rightarrow> int list \<Rightarrow> rate_store \<Rightarrow> bool list \<times> rate_store" where
  "requestsAt svc [] store = ([], store)"
| "requestsAt svc (now # later) store =
     (case canMakeRequest svc now store of
        (ok, store') \<Rightarrow> (case requestsAt svc later store' of (oks, store'') \<Rightarrow> (ok # oks, store'')))"

definition no_requests :: rate_store where
  "no_requests = (\<lambda>svc. Absent)"

definition sixty_requests :: rate_store where
  "sixty_requests = snd (requestsAt OpenAI (map int [1..<61]) no_requests)"

section \<open>Streaming adapters (\<open>streamMessage\<close> of services/aiClients, src/unnamed/part_002)\<close>

text \<open>
  A JavaScript string is a sequence of 16-bit code units. \<open>js\<close> turns a literal of the
  theory into one.
\<close>

type_synonym jsstring = "16 word list"

definition js :: "string \<Rightarrow> jsstring" where
  "js s = map (\<lambda>c. of_nat (of_char c)) s"

text \<open>
  The value \<open>JSON.parse\<close> returns. \<open>JSON.parse\<close> itself is a parameter \<open>parse\<close> of the
  model: \<open>None\<close> when it throws. A property read gives \<open>None\<close> for \<open>undefined\<close>.
\<close>

datatype json =
    JNull
  | JBool bool
  | JNumber real
  | JString jsstring
  | JArray "json list"
  | JObject "(jsstring \<times> json) list"

text \<open>Reading a property that is not an index or a built-in one, on a value that is not null.\<close>

fun get_prop :: "json \<Rightarrow> jsstring \<Rightarrow> json option" where
  "get_prop (JObject kvs) k = map_of kvs k"
| "get_prop v k = None"

text \<open>\<open>v[0]\<close> on a value that is not null.\<close>

fun index0 :: "json \<Rightarrow> json option" where
  "index0 (JArray []) = None"
| "index0 (JArray (x # xs)) = Some x"
| "index0 (JString []) = None"
| "index0 (JString (c # cs)) = Some (JString [c])"
| "index0 (JObject kvs) = map_of kvs (js ''0'')"
| "index0 v = None"

text \<open>\<open>v?.k\<close>: \<open>undefined\<close> on \<open>undefined\<close> and \<open>null\<close>.\<close>

fun optional_chain :: "json option \<Rightarrow> jsstring \<Rightarrow> json option" where
  "optional_chain None k = None"
| "optional_chain (Some JNull) k = None"
| "optional_chain (Some v) k = get_prop v k"

text \<open>\<open>parsed.choices[0]?.delta?.content\<close>; the outer \<open>None\<close> is the TypeError of reading
  a property of \<open>null\<close> or \<open>undefined\<close>.\<close>

definition delta_content :: "json \<Rightarrow> json option option" where
  "delta_content parsed =
     (if parsed = JNull then None
      else (case get_prop parsed (js ''choices'') of
              None \<Rightarrow> None
            | Some JNull \<Rightarrow> None
            | Some choices \<Rightarrow>
                Some (optional_chain (optional_chain (index0 choices) (js ''delta'')) (js ''content''))))"

fun truthy :: "json option \<Rightarrow> bool" where
  "truthy None = False"
| "truthy (Some JNull) = False"
| "truthy (Some (JBool b)) = b"
| "truthy (Some (JNumber x)) = (x \<noteq> 0)"
| "truthy (Some (JString s)) = (s \<noteq> [])"
| "truthy (Some v) = True"

text \<open>\<open>String.prototype.split('\n')\<close>: never the empty array.\<close>

fun split_lines :: "jsstring \<Rightarrow> jsstring list" where
  "split_lines [] = [[]]"
| "split_lines (c # cs) =
     (if c = 10 then [] # split_lines cs
      else (case split_lines cs of [] \<Rightarrow> [[c]] | l # ls \<Rightarrow> (c # l) # ls))"

datatype line_step = Return | Yield json | Skip

definition process_line :: "(jsstring \<Rightarrow> json option) \<Rightarrow> jsstring \<Rightarrow> line_step" where
  "process_line parse line =
     (if take 6 line = js ''data: '' then
        (let data = drop 6 line in
         if data = js ''[DONE]'' then Return
         else (case parse data of
                 None \<Rightarrow> Skip
               | Some parsed \<Rightarrow>
                   (case delta_content parsed of
                      None \<Rightarrow> Skip
                    | Some delta \<Rightarrow> (if truthy delta then Yield (the delta) else Skip))))
      else Skip)"

text \<open>The \<open>for\<close> loop over the complete lines of one read: what it yields, and whether it
  left the generator by \<open>return\<close>.\<close>

fun process_lines :: "(jsstring \<Rightarrow> json option) \<Rightarrow> jsstring list \<Rightarrow> json list \<times> bool" where
  "process_lines parse [] = ([], False)"
| "process_lines parse (line # lines) =
     (case process_line parse line of
        Return \<Rightarrow> ([], True)
      | Yield delta \<Rightarrow> (case process_lines parse lines of (ys, r) \<Rightarrow> (delta # ys, r))
      | Skip \<Rightarrow> process_lines parse lines)"

text \<open>\<open>lines.pop() || ''\<close>: the last element, removed from the array.\<close>

definition pop :: "jsstring list \<Rightarrow> jsstring list \<times> jsstring" where
  "pop lines = (if lines = [] then ([], []) else (butlast lines, last lines))"

text \<open>
  The \<open>while (true)\<close> loop. The reads of the body are the list of decoded chunks (the
  decoder runs in streaming mode, so the text of the body is their concatenation); the
  end of the list is \<open>done\<close>. The result is the sequence of yielded values.
\<close>

fun stream_loop :: "(jsstring \<Rightarrow> json option) \<Rightarrow> jsstring \<Rightarrow> jsstring list \<Rightarrow> json list" where
  "stream_loop parse buffer [] = []"
| "stream_loop parse buffer (value # reads) =
     (case pop (split_lines (buffer @ value)) of
        (lines, buffer') \<Rightarrow>
          (case process_lines parse lines of
             (ys, returned) \<Rightarrow> (if returned then ys else ys @ stream_loop parse buffer' reads)))"

definition streamMessage :: "(jsstring \<Rightarrow> json option) \<Rightarrow> jsstring list \<Rightarrow> json list" where
  "streamMessage parse reads = stream_loop parse [] reads"

subsection \<open>The parser as the specification words it\<close>

text \<open>
  Following the specification: split the whole text on newlines, keep the complete lines
  (all but the unterminated rest), stop at the first line whose payload is the terminator,
  and of every line before it that starts with \<open>data: \<close>, parses and has a content field,
  take that field.
\<close>

definition is_terminator :: "jsstring \<Rightarrow> bool" where
  "is_terminator line = (line = js ''data: [DONE]'')"

definition line_delta :: "(jsstring \<Rightarrow> json option) \<Rightarrow> jsstring \<Rightarrow> json list" where
  "line_delta parse line =
     (if take 6 line = js ''data: '' then
        (case parse (drop 6 line) of
           None \<Rightarrow> []
         | Some parsed \<Rightarrow>
             (case delta_content parsed of
                Some (Some delta) \<Rightarrow> (if truthy (Some delta) then [delta] else [])
              | _ \<Rightarrow> []))
      else [])"

definition complete_lines :: "jsstring \<Rightarrow> jsstring list" where
  "complete_lines text = butlast (split_lines text)"

definition sse_deltas :: "(jsstring \<Rightarrow> json option) \<Rightarrow> jsstring \<Rightarrow> json list" where
  "sse_deltas parse text =
     concat (map (line_delta parse) (takeWhile (\<lambda>line. \<not> is_terminator line) (complete_lines text)))"

text \<open>The same with the sentence on content taken literally: every line before the
  terminator that starts with \<open>data: \<close>, parses and has a content field yields that
  field, whatever its value.\<close>

definition line_delta_literal :: "(jsstring \<Rightarrow> json option) \<Rightarrow> jsstring \<Rightarrow> json list" where
  "line_delta_literal parse line =
     (if take 6 line = js ''data: '' then
        (case parse (drop 6 line) of
           None \<Rightarrow> []
         | Some parsed \<Rightarrow>
             (case delta_content parsed of
                Some (Some delta) \<Rightarrow> [delta]
              | _ \<Rightarrow> []))
      else [])"

definition sse_deltas_literal :: "(jsstring \<Rightarrow> json option) \<Rightarrow> jsstring \<Rightarrow> json list" where
  "sse_deltas_literal parse text =
     concat (map (line_delta_literal parse) (takeWhile (\<lambda>line. \<not> is_terminator line) (complete_lines text)))"

subsection \<open>A body of events\<close>

definition quoted :: "string \<Rightarrow> jsstring" where
  "quoted s = 34 # js s @ [34]"

text \<open>The text \<open>{"choices":[{"delta":{"content":c}}]}\<close> and the value it parses to.\<close>

definition delta_payload :: "string \<Rightarrow> jsstring" where
  "delta_payload c =
     js ''{'' @ quoted ''choices'' @ js '':[{'' @ quoted ''delta'' @ js '':{'' @
     quoted ''content'' @ js '':'' @ quoted c @ js ''}}]}''"

definition delta_value :: "string \<Rightarrow> json" where
  "delta_value c =
     JObject [(js ''choices'',
       JArray [JObject [(js ''delta'', JObject [(js ''content'', JString (js c))])]])]"

text \<open>\<open>JSON.parse\<close> on the payloads of the example body: two content deltas, an empty
  content delta and the empty object; every other text of the body is malformed.\<close>

definition parse_example :: "jsstring \<Rightarrow> json option" where
  "parse_example data =
     (if data = delta_payload ''Hel'' then Some (delta_value ''Hel'')
      else if data = delta_payload ''lo'' then Some (delta_value ''lo'')
      else if data = delta_payload '''' then Some (delta_value '''')
      else if data = js ''{}'' then Some (JObject [])
      else None)"

definition example_reads :: "jsstring list" where
  "example_reads =
     [js ''data: '' @ delta_payload ''Hel'' @ [10] @ js ''da'',
      js ''ta: {oops'' @ [10] @ js '': keep-alive'' @ [10] @ js ''data: {}'' @ [10] @ js ''data: '' @ delta_payload ''lo'',
      [10] @ js ''data: [DONE]'' @ [10] @ js ''data: '' @ delta_payload ''Hel'' @ [10]]"

definition empty_delta_reads :: "jsstring list" where
  "empty_delta_reads = [js ''data: '' @ delta_payload '''' @ [10]]"

section \<open>Credential obfuscation (the settings hook in src/hooks/useProjects.ts)\<close>

subsection \<open>The platform's \<open>btoa\<close> and \<open>atob\<close>\<close>

text \<open>
  \<open>btoa\<close> and \<open>atob\<close> are functions of the browser, defined by the HTML standard:
  \<open>btoa\<close> throws on a code unit above 255 and otherwise encodes the code units as bytes
  in Base64 with padding; \<open>atob\<close> is the standard's forgiving Base64 decoding (ASCII
  whitespace removed, up to two padding signs dropped when the length is a multiple of
  four, failure on a length of remainder one or on a sign outside the alphabet). A thrown
  exception is \<open>None\<close>.
\<close>

definition b64_char :: "nat \<Rightarrow> 16 word" where
  "b64_char n =
     (if n < 26 then of_nat (65 + n)
      else if n < 52 then of_nat (97 + (n - 26))
      else if n < 62 then of_nat (48 + (n - 52))
      else if n = 62 then 43 else 47)"

definition b64_index :: "16 word \<Rightarrow> nat option" where
  "b64_index w =
     (let c = unat w in
      if 65 \<le> c \<and> c \<le> 90 then Some (c - 65)
      else if 97 \<le> c \<and> c \<le> 122 then Some (c - 97 + 26)
      else if 48 \<le> c \<and> c \<le> 57 then Some (c - 48 + 52)
      else if c = 43 then Some 62
      else if c = 47 then Some 63
      else None)"

text \<open>The 6-bit groups of a byte sequence, three bytes to four groups; a rest of one or
  two bytes gives two or three groups, the last one filled with zero bits.\<close>

fun sextets :: "nat list \<Rightarrow> nat list" where
  "sextets (a # b # c # bs) =
     [a div 4, (a mod 4) * 16 + b div 16, (b mod 16) * 4 + c div 64, c mod 64] @ sextets bs"
| "sextets [a, b] = [a div 4, (a mod 4) * 16 + b div 16, (b mod 16) * 4]"
| "sextets [a] = [a div 4, (a mod 4) * 16]"
| "sextets [] = []"

definition padding :: "nat list \<Rightarrow> 16 word list" where
  "padding bs = replicate ((3 - length bs mod 3) mod 3) 61"

definition btoa :: "jsstring \<Rightarrow> jsstring option" where
  "btoa s =
     (if \<exists>c \<in> set s. 255 < unat c then None
      else Some (map b64_char (sextets (map unat s)) @ padding (map unat s)))"

definition ascii_whitespace :: "16 word \<Rightarrow> bool" where
  "ascii_whitespace w = (w = 9 \<or> w = 10 \<or> w = 12 \<or> w = 13 \<or> w = 32)"

definition strip_padding :: "jsstring \<Rightarrow> jsstring" where
  "strip_padding d =
     (case rev d of
        p # q # r \<Rightarrow> (if p = 61 \<and> q = 61 then rev r else if p = 61 then rev (q # r) else d)
      | [p] \<Rightarrow> (if p = 61 then [] else d)
      | [] \<Rightarrow> d)"

fun indices :: "jsstring \<Rightarrow> nat list option" where
  "indices [] = Some []"
| "indices (w # ws) =
     (case b64_index w of
        None \<Rightarrow> None
      | Some i \<Rightarrow> (case indices ws of None \<Rightarrow> None | Some is \<Rightarrow> Some (i # is)))"

text \<open>Four groups give three bytes; three groups at the end give two bytes and two
  groups one byte, the surplus bits dropped.\<close>

fun octets :: "nat list \<Rightarrow> nat list" where
  "octets (a # b # c # d # gs) =
     [a * 4 + b div 16, (b mod 16) * 16 + c div 4, (c mod 4) * 64 + d] @ octets gs"
| "octets [a, b, c] = [a * 4 + b div 16, (b mod 16) * 16 + c div 4]"
| "octets [a, b] = [a * 4 + b div 16]"
| "octets gs = []"

definition atob :: "jsstring \<Rightarrow> jsstring option" where
  "atob s =
     (let d = filter (\<lambda>w. \<not> ascii_whitespace w) s;
          d = (if length d mod 4 = 0 then strip_padding d else d)
      in if length d mod 4 = 1 then None
         else (case indices d of
                 None \<Rightarrow> None
               | Some gs \<Rightarrow> Some (map of_nat (octets gs))))"

subsection \<open>\<open>encryptApiKey\<close> and \<open>decryptApiKey\<close>\<close>

text \<open>\<open>encryptApiKey\<close> has no handler: the exception of \<open>btoa\<close> leaves it (\<open>None\<close>).
  \<open>decryptApiKey\<close> catches the exception of \<open>atob\<close> and returns the empty string.\<close>

definition encryptApiKey :: "jsstring \<Rightarrow> jsstring option" where
  "encryptApiKey key =
     (if key = [] then Some []
      else (case btoa key of None \<Rightarrow> None | Some encoded \<Rightarrow> Some (rev encoded)))"

definition decryptApiKey :: "jsstring \<Rightarrow> jsstring" where
  "decryptApiKey encryptedKey =
     (if encryptedKey = [] then []
      else (let reversed = rev encryptedKey
            in (case atob reversed of None \<Rightarrow> [] | Some key \<Rightarrow> key)))"

text \<open>\<open>decryptApiKey(encryptApiKey(key))\<close>: the exception of the inner call leaves the
  expression.\<close>

definition decrypt_encrypt :: "jsstring \<Rightarrow> jsstring option" where
  "decrypt_encrypt key = map_option decryptApiKey (encryptApiKey key)"

section \<open>Settings (types/settings in src/unnamed/part_004, the settings hook in src/hooks/useProjects.ts)\<close>

datatype Theme = Light | Dark | System_theme

text \<open>
  A vendor block as it is at run time. A block read from storage may lack any field (the
  load merges shallowly and does not fill a block in), so every field is optional; after
  \<open>decryptSettings\<close> the \<open>apiKey\<close> is always present.
\<close>

record service_block =
  block_name :: "jsstring option"
  apiKey :: "jsstring option"
  baseUrl :: "jsstring option"
  enabled :: "bool option"

record AIServices =
  aider :: service_block
  claudeCode :: service_block
  openRouter :: service_block
  openAI :: service_block

record AppSettings =
  theme :: Theme
  aiServices :: AIServices
  defaultAIService :: AIServiceType
  autoSave :: bool
  autoSaveInterval :: number
  compactMode :: bool
  showTaskCount :: bool
  enableAnimations :: bool
  enableAutoBackup :: bool
  backupInterval :: number
  maxBackups :: number
  sessionTimeout :: number
  enableSessionHistory :: bool
  maxSessionHistory :: number

definition DEFAULT_SETTINGS :: AppSettings where
  "DEFAULT_SETTINGS =
     \<lparr> theme = System_theme,
       aiServices =
         \<lparr> aider = \<lparr> block_name = Some (js ''Aider''), apiKey = Some [], baseUrl = None, enabled = Some False \<rparr>,
           claudeCode = \<lparr> block_name = Some (js ''Claude Code''), apiKey = Some [], baseUrl = None, enabled = Some False \<rparr>,
           openRouter = \<lparr> block_name = Some (js ''OpenRouter''), apiKey = Some [],
             baseUrl = Some (js ''https://openrouter.ai/api/v1''), enabled = Some False \<rparr>,
           openAI = \<lparr> block_name = Some (js ''OpenAI''), apiKey = Some [],
             baseUrl = Some (js ''https://api.openai.com/v1''), enabled = Some False \<rparr> \<rparr>,
       defaultAIService = OpenAI,
       autoSave = True,
       autoSaveInterval = 30,
       compactMode = False,
       showTaskCount = True,
       enableAnimations = True,
       enableAutoBackup = True,
       backupInterval = 5,
       maxBackups = 10,
       sessionTimeout = 60,
       enableSessionHistory = True,
       maxSessionHistory = 50 \<rparr>"

text \<open>
  A settings object parsed from JSON: any key may be absent. \<open>'sv\<close> is the shape of the
  \<open>aiServices\<close> value: in a stored blob each of the four blocks may be absent; what
  \<open>decryptSettings\<close> returns has all four.
\<close>

record stored_services =
  st_aider :: "service_block option"
  st_claudeCode :: "service_block option"
  st_openRouter :: "service_block option"
  st_openAI :: "service_block option"

record 'sv settings_json =
  j_theme :: "Theme option"
  j_aiServices :: "'sv option"
  j_defaultAIService :: "AIServiceType option"
  j_autoSave :: "bool option"
  j_autoSaveInterval :: "number option"
  j_compactMode :: "bool option"
  j_showTaskCount :: "bool option"
  j_enableAnimations :: "bool option"
  j_enableAutoBackup :: "bool option"
  j_backupInterval :: "number option"
  j_maxBackups :: "number option"
  j_sessionTimeout :: "number option"
  j_enableSessionHistory :: "bool option"
  j_maxSessionHistory :: "number option"

text \<open>\<open>{ ...block, apiKey: decryptApiKey(block.apiKey) }\<close>; an absent key is falsy and
  decrypts to the empty string.\<close>

definition decrypt_block :: "service_block \<Rightarrow> service_block" where
  "decrypt_block b = b\<lparr>apiKey := Some (decryptApiKey (case apiKey b of None \<Rightarrow> [] | Some k \<Rightarrow> k))\<rparr>"

text \<open>\<open>decryptSettings\<close>: reading \<open>.apiKey\<close> of an absent block, or a block of an absent
  \<open>aiServices\<close>, throws a TypeError (\<open>None\<close>).\<close>

definition decryptSettings :: "stored_services settings_json \<Rightarrow> AIServices settings_json option" where
  "decryptSettings s =
     (case j_aiServices s of
        None \<Rightarrow> None
      | Some sv \<Rightarrow>
          (case st_aider sv of None \<Rightarrow> None | Some a \<Rightarrow>
          (case st_claudeCode sv of None \<Rightarrow> None | Some c \<Rightarrow>
          (case st_openRouter sv of None \<Rightarrow> None | Some r \<Rightarrow>
          (case st_openAI sv of None \<Rightarrow> None | Some p \<Rightarrow>
             Some \<lparr> j_theme = j_theme s,
                    j_aiServices = Some \<lparr> aider = decrypt_block a, claudeCode = decrypt_block c,
                                          openRouter = decrypt_block r, openAI = decrypt_block p \<rparr>,
                    j_defaultAIService = j_defaultAIService s,
                    j_autoSave = j_autoSave s,
                    j_autoSaveInterval = j_autoSaveInterval s,
                    j_compactMode = j_compactMode s,
                    j_showTaskCount = j_showTaskCount s,
                    j_enableAnimations = j_enableAnimations s,
                    j_enableAutoBackup = j_enableAutoBackup s,
                    j_backupInterval = j_backupInterval s,
                    j_maxBackups = j_maxBackups s,
                    j_sessionTimeout = j_sessionTimeout s,
                    j_enableSessionHistory = j_enableSessionHistory s,
                    j_maxSessionHistory = j_maxSessionHistory s \<rparr>)))))"

text \<open>\<open>{ ...base, ...over }\<close>: the keys present in \<open>over\<close> win.\<close>

definition spread_settings :: "AppSettings \<Rightarrow> AIServices settings_json \<Rightarrow> AppSettings" where
  "spread_settings base over =
     \<lparr> theme = or_else (j_theme over) (theme base),
       aiServices = or_else (j_aiServices over) (aiServices base),
       defaultAIService = or_else (j_defaultAIService over) (defaultAIService base),
       autoSave = or_else (j_autoSave over) (autoSave base),
       autoSaveInterval = or_else (j_autoSaveInterval over) (autoSaveInterval base),
       compactMode = or_else (j_compactMode over) (compactMode base),
       showTaskCount = or_else (j_showTaskCount over) (showTaskCount base),
       enableAnimations = or_else (j_enableAnimations over) (enableAnimations base),
       enableAutoBackup = or_else (j_enableAutoBackup over) (enableAutoBackup base),
       backupInterval = or_else (j_backupInterval over) (backupInterval base),
       maxBackups = or_else (j_maxBackups over) (maxBackups base),
       sessionTimeout = or_else (j_sessionTimeout over) (sessionTimeout base),
       enableSessionHistory = or_else (j_enableSessionHistory over) (enableSessionHistory base),
       maxSessionHistory = or_else (j_maxSessionHistory over) (maxSessionHistory base) \<rparr>"

text \<open>The state of the hook, and the \<open>dark\<close> class of the document root that
  \<open>applyTheme\<close> toggles.\<close>

record settings_state =
  settings :: AppSettings
  settings_isLoading :: bool
  settings_error :: "string option"
  dark_class :: bool

definition applyTheme :: "Theme \<Rightarrow> bool \<Rightarrow> bool" where
  "applyTheme th prefersDark = (if th = System_theme then prefersDark else th = Dark)"

text \<open>
  \<open>loadSettings\<close>. Inputs: the text under the settings key, the backend's answer and
  the system's colour preference. The function reads the store and never writes it; the
  store is returned as it was.
\<close>

definition loadSettings ::
  "stored_services settings_json item \<Rightarrow> stored_services settings_json response \<Rightarrow> bool \<Rightarrow>
   settings_state \<Rightarrow> settings_state \<times> stored_services settings_json item" where
  "loadSettings localSettings backend prefersDark st =
     (let loaded1 =
            (case localSettings of
               Parsed parsed \<Rightarrow>
                 (case decryptSettings parsed of
                    Some d \<Rightarrow> spread_settings DEFAULT_SETTINGS d
                  | None \<Rightarrow> DEFAULT_SETTINGS)
             | _ \<Rightarrow> DEFAULT_SETTINGS);
          loaded2 =
            (case backend of
               Body backendSettings \<Rightarrow>
                 (case decryptSettings backendSettings of
                    Some d \<Rightarrow> spread_settings loaded1 d
                  | None \<Rightarrow> loaded1)
             | _ \<Rightarrow> loaded1)
      in (\<lparr> settings = loaded2, settings_isLoading = False, settings_error = None,
            dark_class = applyTheme (theme loaded2) prefersDark \<rparr>, localSettings))"

definition initial_settings_state :: settings_state where
  "initial_settings_state =
     \<lparr> settings = DEFAULT_SETTINGS, settings_isLoading = True, settings_error = None, dark_class = False \<rparr>"

text \<open>A stored blob: the dark theme, and an obfuscated key in the OpenAI block.\<close>

definition example_blob :: "stored_services settings_json" where
  "example_blob =
     \<lparr> j_theme = Some Dark,
       j_aiServices = Some
         \<lparr> st_aider = Some (aider (aiServices DEFAULT_SETTINGS)),
           st_claudeCode = Some (claudeCode (aiServices DEFAULT_SETTINGS)),
           st_openRouter = Some (openRouter (aiServices DEFAULT_SETTINGS)),
           st_openAI = Some ((openAI (aiServices DEFAULT_SETTINGS))\<lparr>apiKey := Some (js ''jJWYts2c''), enabled := Some True\<rparr>) \<rparr>,
       j_defaultAIService = None, j_autoSave = Some False, j_autoSaveInterval = None,
       j_compactMode = None, j_showTaskCount = None, j_enableAnimations = None,
       j_enableAutoBackup = None, j_backupInterval = None, j_maxBackups = None,
       j_sessionTimeout = None, j_enableSessionHistory = None, j_maxSessionHistory = None \<rparr>"

section \<open>The session hook (src/hooks/useAISessions.ts)\<close>

text \<open>
  The hook keeps session objects in two pieces of state, the list \<open>sessions\<close> and
  \<open>activeSession\<close>. Its operations never mutate a session object: they replace it by a
  shallow copy (\<open>{ ...session, messages: [...] }\<close>). A shallow copy shares the metadata
  object of the original, and \<open>addMessage\<close> mutates that object in place. So an in-memory
  session is a record value that holds the address of its metadata object, and the
  metadata objects live in a heap: a list, indexed by address, that only grows.

  Every operation is a \<open>useCallback\<close> closure. It reads \<open>sessions\<close> and
  \<open>activeSession\<close> as the render that created it saw them (\<open>render\<close>), and it writes
  through the setters, which act on the current state: a setter called with a value
  replaces the state, a setter called with an updater function is applied to the current
  state. So an operation takes the captured render and the current state. A caller that
  uses the callbacks of the latest render passes \<open>render_of\<close> the current state; a
  caller that runs two operations from the same render passes the same render twice.
  The updaters an operation queues are applied once, in the order of the calls, before
  the next operation. The answers of the backend to the mirror calls (POST, PUT, DELETE)
  are not used by the code and are left out; the answer to the GET of \<open>loadSessions\<close> is
  an input.
\<close>

type_synonym addr = nat
type_synonym mem_session = "addr AISession"

record hook_state =
  sessions :: "mem_session list"
  activeSession :: "mem_session option"
  isLoading :: bool
  error :: "string option"
  heap :: "session_metadata list"

record render =
  captured_sessions :: "mem_session list"
  captured_activeSession :: "mem_session option"

definition render_of :: "hook_state \<Rightarrow> render" where
  "render_of hs = \<lparr> captured_sessions = sessions hs, captured_activeSession = activeSession hs \<rparr>"

definition with_metadata :: "'a AISession \<Rightarrow> 'b option \<Rightarrow> 'b AISession" where
  "with_metadata s md =
     \<lparr> sess_id = sess_id s, title = title s, projectId = projectId s, service = service s,
       sess_model = sess_model s, messages = messages s, createdAt = createdAt s,
       updatedAt = updatedAt s, isActive = isActive s, metadata = md \<rparr>"

text \<open>What \<open>JSON.stringify\<close> (or any reader) sees of an in-memory session.\<close>

definition snapshot :: "session_metadata list \<Rightarrow> mem_session \<Rightarrow> stored_session" where
  "snapshot h s =
     with_metadata s
       (case metadata s of
          None \<Rightarrow> None
        | Some a \<Rightarrow> (if a < length h then Some (h ! a) else None))"

text \<open>A session parsed from JSON is a new object with a new metadata object.\<close>

definition alloc_session ::
  "stored_session \<Rightarrow> session_metadata list \<Rightarrow> mem_session \<times> session_metadata list" where
  "alloc_session s h =
     (case metadata s of
        None \<Rightarrow> (with_metadata s None, h)
      | Some md \<Rightarrow> (with_metadata s (Some (length h)), h @ [md]))"

fun alloc_sessions ::
  "stored_session list \<Rightarrow> session_metadata list \<Rightarrow> mem_session list \<times> session_metadata list" where
  "alloc_sessions [] h = ([], h)"
| "alloc_sessions (s # ss) h =
     (case alloc_session s h of
        (s', h1) \<Rightarrow> (case alloc_sessions ss h1 of (ss', h2) \<Rightarrow> (s' # ss', h2)))"

text \<open>\<open>activeSession?.id === sessionId\<close>\<close>

definition active_is :: "mem_session option \<Rightarrow> string \<Rightarrow> bool" where
  "active_is active sessionId = (case active of None \<Rightarrow> False | Some a \<Rightarrow> sess_id a = sessionId)"

definition createSession ::
  "string \<Rightarrow> AIServiceType \<Rightarrow> string option \<Rightarrow> date \<Rightarrow> string \<Rightarrow> string \<Rightarrow> render \<Rightarrow>
   hook_state \<times> session_store \<Rightarrow> mem_session option \<times> hook_state \<times> session_store" where
  "createSession pid svc title_opt now sessionId localeString r w =
     (case w of (hs, st) \<Rightarrow>
        (let h' = heap hs @ [initial_metadata now];
             newSession = createAISession pid svc title_opt now sessionId localeString (length (heap hs));
             updatedSessions = captured_sessions r @ [newSession];
             st1 = snd (saveSessions pid (map (snapshot h') updatedSessions) st);
             st2 = snd (setActiveSession_storage pid (sess_id newSession) st1)
         in (Some newSession,
             hs\<lparr>error := None, sessions := updatedSessions, activeSession := Some newSession, heap := h'\<rparr>,
             st2)))"

definition switchSession ::
  "string \<Rightarrow> string \<Rightarrow> render \<Rightarrow> hook_state \<times> session_store \<Rightarrow>
   bool \<times> hook_state \<times> session_store" where
  "switchSession pid sessionId r w =
     (case w of (hs, st) \<Rightarrow>
        (case find (\<lambda>s. sess_id s = sessionId) (captured_sessions r) of
           None \<Rightarrow> (False, hs\<lparr>error := Some ''Session not found''\<rparr>, st)
         | Some session \<Rightarrow>
             (True, hs\<lparr>error := None, activeSession := Some session\<rparr>,
              snd (setActiveSession_storage pid sessionId st))))"

definition deleteSession ::
  "string \<Rightarrow> string \<Rightarrow> render \<Rightarrow> hook_state \<times> session_store \<Rightarrow>
   bool \<times> hook_state \<times> session_store" where
  "deleteSession pid sessionId r w =
     (case w of (hs, st) \<Rightarrow>
        (let updatedSessions = filter (\<lambda>s. sess_id s \<noteq> sessionId) (captured_sessions r);
             st1 = snd (saveSessions pid (map (snapshot (heap hs)) updatedSessions) st);
             cleared = active_is (captured_activeSession r) sessionId;
             st2 = (if cleared then snd (clearActiveSession pid st1) else st1);
             st3 = snd (deleteSession_storage sessionId st2)
         in (True,
             hs\<lparr>error := None, sessions := updatedSessions,
                activeSession := (if cleared then None else activeSession hs)\<rparr>,
             st3)))"


text \<open>
  The body shared by the two state updaters of \<open>addMessage\<close>: a copy of the session with
  the message appended, and the in-place update of the metadata object that the copy
  shares with the original. \<open>now\<close> is the clock as this updater reads it.
\<close>

definition append_message ::
  "AIMessage \<Rightarrow> date \<Rightarrow> mem_session \<Rightarrow> session_metadata list \<Rightarrow> mem_session \<times> session_metadata list" where
  "append_message message now session h =
     (let updatedSession = session\<lparr>messages := messages session @ [message], updatedAt := now\<rparr>
      in (updatedSession,
          (case metadata updatedSession of
             None \<Rightarrow> h
           | Some a \<Rightarrow>
               (if a < length h
                then h[a := update_metadata (length (messages updatedSession)) message now (h ! a)]
                else h))))"



text \<open>
  \<open>loadSessions\<close>. \<open>backend\<close> is the answer to the GET; only a 2xx answer whose body
  parses is merged.
\<close>

definition loadSessions ::
  "string \<Rightarrow> stored_session list response \<Rightarrow> hook_state \<times> session_store \<Rightarrow> hook_state \<times> session_store" where
  "loadSessions pid backend w =
     (case w of (hs, st) \<Rightarrow>
        (case alloc_sessions (getSessions pid st) (heap hs) of
           (localSessions, h1) \<Rightarrow>
             (let (active1, h2) =
                    (case getActiveSession pid st of
                       None \<Rightarrow> (activeSession hs, h1)
                     | Some activeSessionId \<Rightarrow>
                         (case getSession activeSessionId st of
                            None \<Rightarrow> (None, h1)
                          | Some activeSessionData \<Rightarrow>
                              (case alloc_session activeSessionData h1 of (a, h) \<Rightarrow> (Some a, h))))
              in (case backend of
                    Body backendJson \<Rightarrow>
                      (case alloc_sessions backendJson h2 of
                         (backendSessions, h3) \<Rightarrow>
                           (let mergedSessions = backendSessions @
                                  filter (\<lambda>localSession.
                                            find (\<lambda>s. sess_id s = sess_id localSession) backendSessions = None)
                                    localSessions
                            in (hs\<lparr>isLoading := False, error := None, sessions := mergedSessions,
                                   activeSession := active1, heap := h3\<rparr>,
                                snd (saveSessions pid (map (snapshot h3) mergedSessions) st))))
                  | _ \<Rightarrow>
                      (hs\<lparr>isLoading := False, error := None, sessions := localSessions,
                          activeSession := active1, heap := h2\<rparr>, st)))))"

definition initial_hook_state :: hook_state where
  "initial_hook_state = \<lparr> sessions = [], activeSession = None, isLoading = False, error = None, heap = [] \<rparr>"

subsection \<open>The active session and its entry in the list\<close>

text \<open>
  What is compared: the session as a reader sees it (\<open>strict\<close>), or the same without
  the two time stamps that the updaters take from the clock (\<open>updatedAt\<close> and
  \<open>lastActivity\<close>).
\<close>

definition erase_times :: "stored_session \<Rightarrow> stored_session" where
  "erase_times s = s\<lparr>updatedAt := 0, metadata := map_option (\<lambda>md. md\<lparr>lastActivity := 0\<rparr>) (metadata s)\<rparr>"

definition view :: "bool \<Rightarrow> session_metadata list \<Rightarrow> mem_session \<Rightarrow> stored_session" where
  "view strict h s = (if strict then snapshot h s else erase_times (snapshot h s))"

text \<open>The invariant of the claim: the active session has an entry in the list with its
  id that looks the same.\<close>

definition active_in_list :: "bool \<Rightarrow> hook_state \<Rightarrow> bool" where
  "active_in_list strict hs =
     (case activeSession hs of
        None \<Rightarrow> True
      | Some a \<Rightarrow> list_ex (\<lambda>e. sess_id e = sess_id a \<and> view strict (heap hs) e = view strict (heap hs) a)
                    (sessions hs))"

text \<open>
  How the hook's objects share metadata: every address is allocated, two entries of the
  list never share a metadata object, and an entry that shares the metadata object of
  the active session is a copy of it.
\<close>

definition addresses :: "mem_session list \<Rightarrow> addr list" where
  "addresses ss = List.map_filter metadata ss"

definition sharing_ok :: "bool \<Rightarrow> hook_state \<Rightarrow> bool" where
  "sharing_ok strict hs =
     (distinct (addresses (sessions hs)) \<and>
      list_all (\<lambda>a. a < length (heap hs)) (addresses (sessions hs)) \<and>
      (case activeSession hs of
         None \<Rightarrow> True
       | Some a \<Rightarrow>
           (case metadata a of
              None \<Rightarrow> True
            | Some q \<Rightarrow> q < length (heap hs) \<and>
                list_all (\<lambda>f. metadata f = Some q \<longrightarrow> view strict (heap hs) f = view strict (heap hs) a)
                  (sessions hs))))"

text \<open>Two sessions created one after the other in an empty project.\<close>

definition first_session :: "hook_state \<times> session_store" where
  "first_session =
     snd (createSession ''p1'' OpenAI None 5 ''s1'' ''1/1/1970''
       (render_of initial_hook_state) (initial_hook_state, empty_store))"

definition example_hook :: "hook_state \<times> session_store" where
  "example_hook =
     snd (createSession ''p1'' Aider (Some ''second'') 8 ''s3'' ''1/1/1970''
       (render_of (fst first_session)) first_session)"

text \<open>The first session deleted through a callback of the render of \<open>example_hook\<close>.\<close>

definition after_delete :: "hook_state \<times> session_store" where
  "after_delete = snd (deleteSession ''p1'' ''s1'' (render_of (fst example_hook)) example_hook)"

subsection \<open>The merge of the load path as the specification words it\<close>


definition stored_list :: "session_store \<Rightarrow> stored_session list" where
  "stored_list st = (case sessions_item st of Parsed allSessions \<Rightarrow> allSessions | _ \<Rightarrow> [])"


subsection \<open>Auxiliary notions for the invariant\<close>

text \<open>The copy that both updaters of \<open>addMessage\<close> make, the comparison of what
  readers see, and the part of a session that does not depend on the heap.\<close>

definition with_message :: "AIMessage \<Rightarrow> date \<Rightarrow> 'm AISession \<Rightarrow> 'm AISession" where
  "with_message message now s = s\<lparr>messages := messages s @ [message], updatedAt := now\<rparr>"

definition seen :: "bool \<Rightarrow> stored_session \<Rightarrow> stored_session" where
  "seen strict s = (if strict then s else erase_times s)"

definition own_fields :: "bool \<Rightarrow> mem_session \<Rightarrow> stored_session" where
  "own_fields strict s = seen strict (with_metadata s None)"

definition retitled :: "string \<Rightarrow> string \<Rightarrow> 'm AISession \<Rightarrow> 'm AISession" where
  "retitled sessionId new_title s = (if sess_id s = sessionId then s\<lparr>title := new_title\<rparr> else s)"





section \<open>Properties of the storage layer\<close>


lemma findIndex_None: "findIndex P xs = None \<longleftrightarrow> find P xs = None"
  by (induction xs) auto





lemma sess_id_push_message [simp]: "sess_id (push_message message now session) = sess_id session"
  by (simp add: push_message_def Let_def split: option.splits)

lemma messages_push_message [simp]:
  "messages (push_message message now session) = messages session @ [message]"
  by (simp add: push_message_def Let_def split: option.splits)











lemmas scenario_defs = scenario_session_def other_session_def scenario_store_def scenario_calls_def
  createAISession_def createAIMessage_def usage_metadata_def initial_metadata_def



text \<open>
  Claim C10. On a store that holds a session collection (an absent blob is the empty
  collection), \<open>saveSessions p ss\<close> succeeds and the collection afterwards is the stored
  sessions of the other projects, in their order and unchanged, followed by \<open>ss\<close>; the
  active-session pointer is not touched, and what any other project reads back is what
  it read before, followed by the members of \<open>ss\<close> that carry its id. On an unparseable
  blob the call fails and writes nothing.
\<close>

theorem saveSessions_frame:
  "(sessions_item st \<noteq> Corrupt \<longrightarrow>
      fst (saveSessions pid ss st) \<and>
      sessions_item (snd (saveSessions pid ss st)) =
        Parsed (filter (\<lambda>s. projectId s \<noteq> pid) (stored_list st) @ ss) \<and>
      active_item (snd (saveSessions pid ss st)) = active_item st \<and>
      (\<forall>q. q \<noteq> pid \<longrightarrow>
         getSessions q (snd (saveSessions pid ss st)) =
           getSessions q st @ filter (\<lambda>s. projectId s = q) ss)) \<and>
   (sessions_item st = Corrupt \<longrightarrow> saveSessions pid ss st = (False, st))"
  by (cases "sessions_item st")
    (auto simp: saveSessions_def getSessions_def stored_list_def intro: filter_cong)

theorem saveSessions_frame_witness:
  "sessions_item (snd (saveSessions ''p1'' [] scenario_store)) = Parsed [other_session] \<and>
   getSessions ''p2'' (snd (saveSessions ''p1'' [] scenario_store)) = [other_session] \<and>
   sessions_item (snd (saveSessions ''p1'' [scenario_session] empty_store)) = Parsed [scenario_session]"
proof -
  have h1: "sessions_item scenario_store \<noteq> Corrupt" "sessions_item empty_store \<noteq> Corrupt"
    by (simp_all add: scenario_store_def empty_store_def)
  have l: "stored_list scenario_store = [other_session, scenario_session]" "stored_list empty_store = []"
    by (simp_all add: stored_list_def scenario_store_def empty_store_def)
  show ?thesis
    using saveSessions_frame [of scenario_store "''p1''" "[]"]
      saveSessions_frame [of empty_store "''p1''" "[scenario_session]"] h1
    unfolding l by (simp add: scenario_defs getSessions_def)
qed






section \<open>Properties of the rate limiter\<close>

lemma sixty_requests_OpenAI:
  "sixty_requests OpenAI = Parsed \<lparr> requests = map int [1..<61], lastReset = 1 \<rparr>"
  unfolding sixty_requests_def no_requests_def
  by (simp add: canMakeRequest_def recentRequests_def upt_rec Let_def)

lemma sixty_requests_granted:
  "length (fst (requestsAt OpenAI (map int [1..<61]) no_requests)) = 60 \<and>
   set (fst (requestsAt OpenAI (map int [1..<61]) no_requests)) = {True}"
  unfolding no_requests_def
  by (simp add: canMakeRequest_def recentRequests_def upt_rec Let_def)

text \<open>
  Claim C3, as stated, has every \<open>canMakeRequest\<close> call append the current time and
  write the list back. After sixty granted calls at the times 1 to 60, the call at time
  61 is denied and the store still holds the sixty old times: the denied attempt is not
  recorded.
\<close>

theorem rate_limit_record_counterexample:
  "canMakeRequest OpenAI 61 sixty_requests = (False, sixty_requests) \<and>
   sixty_requests OpenAI = Parsed \<lparr> requests = map int [1..<61], lastReset = 1 \<rparr> \<and>
   snd (canMakeRequest OpenAI 61 sixty_requests) OpenAI \<noteq>
     Parsed \<lparr> requests = recentRequests 61 (map int [1..<61]) @ [61], lastReset = 1 \<rparr>"
proof -
  have d: "canMakeRequest OpenAI 61 sixty_requests = (False, sixty_requests)"
    by (simp add: canMakeRequest_def sixty_requests_OpenAI recentRequests_def upt_rec)
  show ?thesis
    unfolding d by (simp add: sixty_requests_OpenAI recentRequests_def upt_rec)
qed

text \<open>
  Claim C3, amended. For every vendor tag: with exactly 60 recorded times inside the
  trailing 60-second window the call returns false, and once every recorded time is at
  least 60 seconds old it returns true again. A granted call on a parseable entry writes
  back the times of the window followed by the current time (on an absent entry it
  writes the current time alone); a denied call, and a call on an unparseable entry,
  write nothing. No call touches another vendor's entry, and \<open>getRemainingRequests\<close>
  never modifies the store.
\<close>

theorem rate_limit_window:
  "(store svc = Parsed data \<and> length (recentRequests now (requests data)) = 60 \<longrightarrow>
      canMakeRequest svc now store = (False, store)) \<and>
   (store svc = Parsed data \<and> (\<forall>t \<in> set (requests data). t \<le> now - 60000) \<longrightarrow>
      canMakeRequest svc now store = (True, store(svc := Parsed (data\<lparr>requests := [now]\<rparr>)))) \<and>
   (store svc = Parsed data \<and> length (recentRequests now (requests data)) < 60 \<longrightarrow>
      canMakeRequest svc now store =
        (True, store(svc := Parsed (data\<lparr>requests := recentRequests now (requests data) @ [now]\<rparr>)))) \<and>
   (store svc = Parsed data \<and> length (recentRequests now (requests data)) \<ge> 60 \<longrightarrow>
      canMakeRequest svc now store = (False, store)) \<and>
   (store svc = Absent \<longrightarrow>
      canMakeRequest svc now store = (True, store(svc := Parsed \<lparr> requests = [now], lastReset = now \<rparr>))) \<and>
   (store svc = Corrupt \<longrightarrow> canMakeRequest svc now store = (True, store)) \<and>
   (\<forall>other. other \<noteq> svc \<longrightarrow> snd (canMakeRequest svc now store) other = store other) \<and>
   snd (getRemainingRequests svc now store) = store"
proof -
  have old: "(\<forall>t \<in> set (requests data). t \<le> now - 60000) \<Longrightarrow> recentRequests now (requests data) = []"
    by (auto simp: recentRequests_def filter_empty_conv)
  show ?thesis
    by (auto simp: canMakeRequest_def getRemainingRequests_def Let_def old split: item.splits)
qed

theorem rate_limit_window_witness:
  "canMakeRequest OpenAI 61 sixty_requests = (False, sixty_requests) \<and>
   canMakeRequest OpenAI 60061 sixty_requests =
     (True, sixty_requests(OpenAI := Parsed \<lparr> requests = [60061], lastReset = 1 \<rparr>)) \<and>
   canMakeRequest Aider 61 sixty_requests =
     (True, sixty_requests(Aider := Parsed \<lparr> requests = [61], lastReset = 61 \<rparr>)) \<and>
   snd (canMakeRequest Aider 61 sixty_requests) OpenAI = sixty_requests OpenAI \<and>
   getRemainingRequests OpenAI 61 sixty_requests = (0, sixty_requests)"
proof -
  have a: "sixty_requests Aider = Absent"
    unfolding sixty_requests_def no_requests_def
    by (simp add: canMakeRequest_def recentRequests_def upt_rec Let_def)
  have h1: "sixty_requests OpenAI = Parsed \<lparr> requests = map int [1..<61], lastReset = 1 \<rparr> \<and>
      length (recentRequests 61 (requests \<lparr> requests = map int [1..<61], lastReset = 1 \<rparr>)) = 60"
    by (simp add: sixty_requests_OpenAI recentRequests_def upt_rec)
  have h2: "sixty_requests OpenAI = Parsed \<lparr> requests = map int [1..<61], lastReset = 1 \<rparr> \<and>
      (\<forall>t \<in> set (requests \<lparr> requests = map int [1..<61], lastReset = 1 \<rparr>). t \<le> 60061 - 60000)"
    by (auto simp: sixty_requests_OpenAI)
  have g: "getRemainingRequests OpenAI 61 sixty_requests = (0, sixty_requests)"
    by (simp add: getRemainingRequests_def sixty_requests_OpenAI recentRequests_def upt_rec)
  show ?thesis
    using rate_limit_window [of sixty_requests OpenAI "\<lparr> requests = map int [1..<61], lastReset = 1 \<rparr>" 61] h1
      rate_limit_window [of sixty_requests OpenAI "\<lparr> requests = map int [1..<61], lastReset = 1 \<rparr>" 60061] h2
      rate_limit_window [of sixty_requests Aider undefined 61] a g
    by simp
qed

section \<open>Properties of the streaming parser\<close>

lemma split_lines_nonempty [simp]: "split_lines s \<noteq> []"
  by (induction s) (auto split: list.splits)

lemma split_lines_append:
  "split_lines (a @ b) = butlast (split_lines a) @ split_lines (last (split_lines a) @ b)"
proof (induction a)
  case Nil
  then show ?case by simp
next
  case (Cons c a)
  show ?case
  proof (cases "c = 10")
    case True
    then show ?thesis using Cons by simp
  next
    case False
    obtain l ls where sl: "split_lines a = l # ls"
      by (cases "split_lines a") auto
    show ?thesis
    proof (cases ls)
      case Nil
      then show ?thesis using Cons False sl by simp
    next
      case (Cons l' ls')
      then show ?thesis using Cons.IH False sl by simp
    qed
  qed
qed

lemma last_split_lines_no_newline: "10 \<notin> set (last (split_lines s))"
  by (induction s) (auto split: list.splits)

lemma split_lines_no_newline: "10 \<notin> set s \<Longrightarrow> split_lines s = [s]"
  by (induction s) (auto split: list.splits)

lemma js_data_DONE: "take 6 line = js ''data: '' \<and> drop 6 line = js ''[DONE]'' \<longleftrightarrow> line = js ''data: [DONE]''"
proof
  assume "take 6 line = js ''data: '' \<and> drop 6 line = js ''[DONE]''"
  then have "take 6 line @ drop 6 line = js ''data: '' @ js ''[DONE]''" by simp
  then show "line = js ''data: [DONE]''" by (simp add: js_def)
next
  assume "line = js ''data: [DONE]''"
  then show "take 6 line = js ''data: '' \<and> drop 6 line = js ''[DONE]''" by (simp add: js_def)
qed

lemma process_line_Return: "process_line parse line = Return \<longleftrightarrow> is_terminator line"
  using js_data_DONE [of line]
  by (auto simp: process_line_def is_terminator_def Let_def split: option.splits)

lemma process_line_delta:
  "\<not> is_terminator line \<Longrightarrow>
   line_delta parse line = (case process_line parse line of Yield c \<Rightarrow> [c] | _ \<Rightarrow> [])"
  using js_data_DONE [of line]
  by (auto simp: process_line_def line_delta_def is_terminator_def Let_def split: option.splits)

lemma process_lines_spec:
  "process_lines parse lines =
     (concat (map (line_delta parse) (takeWhile (\<lambda>line. \<not> is_terminator line) lines)),
      \<exists>line \<in> set lines. is_terminator line)"
proof (induction lines)
  case Nil
  then show ?case by simp
next
  case (Cons line lines)
  show ?case
  proof (cases "is_terminator line")
    case True
    then show ?thesis using process_line_Return [of parse line] by simp
  next
    case False
    then have nr: "process_line parse line \<noteq> Return"
      using process_line_Return [of parse line] by simp
    show ?thesis
      using False nr Cons process_line_delta [OF False, of parse]
      by (cases "process_line parse line") auto
  qed
qed

lemma stream_loop_spec:
  "10 \<notin> set buffer \<Longrightarrow> stream_loop parse buffer reads = sse_deltas parse (buffer @ concat reads)"
proof (induction reads arbitrary: buffer)
  case Nil
  then show ?case
    by (simp add: sse_deltas_def complete_lines_def split_lines_no_newline)
next
  case (Cons v reads)
  let ?ls = "split_lines (buffer @ v)"
  have whole: "complete_lines (buffer @ v @ concat reads) =
      butlast ?ls @ complete_lines (last ?ls @ concat reads)"
    using split_lines_append [of "buffer @ v" "concat reads"]
    by (simp add: complete_lines_def butlast_append)
  have ih: "stream_loop parse (last ?ls) reads = sse_deltas parse (last ?ls @ concat reads)"
    by (rule Cons.IH [OF last_split_lines_no_newline])
  show ?case
  proof (cases "\<exists>x \<in> set (butlast ?ls). is_terminator x")
    case True
    then show ?thesis
      by (auto simp: pop_def process_lines_spec whole sse_deltas_def takeWhile_append1)
  next
    case False
    then have tw: "takeWhile (\<lambda>line. \<not> is_terminator line) (butlast ?ls) = butlast ?ls"
      by (simp add: takeWhile_eq_all_conv)
    show ?thesis
      using False
      by (simp add: pop_def process_lines_spec ih whole sse_deltas_def takeWhile_append2 tw)
  qed
qed


text \<open>
  Claim C8, amended. For every sequence of reads, what the generator yields depends only
  on the concatenated text: it is the content of every complete line (one that a newline
  ends), up to the first line \<open>data: [DONE]\<close>, that starts with \<open>data: \<close>, parses and
  carries a truthy content (a non-empty text). A line with a malformed payload, without
  a content field or with an empty content yields nothing and does not stop the parser.
\<close>

theorem streamMessage_parser:
  "streamMessage parse reads = sse_deltas parse (concat reads) \<and>
   (concat reads = concat reads' \<longrightarrow> streamMessage parse reads = streamMessage parse reads')"
  by (simp add: streamMessage_def stream_loop_spec)

lemma example_lines:
  "split_lines (concat example_reads) =
     [js ''data: '' @ delta_payload ''Hel'', js ''data: {oops'', js '': keep-alive'', js ''data: {}'',
      js ''data: '' @ delta_payload ''lo'', js ''data: [DONE]'', js ''data: '' @ delta_payload ''Hel'', []]"
  by (simp add: example_reads_def js_def delta_payload_def quoted_def)

theorem streamMessage_parser_witness:
  "streamMessage parse_example example_reads = [JString (js ''Hel''), JString (js ''lo'')]"
proof -
  have "sse_deltas parse_example (concat example_reads) = [JString (js ''Hel''), JString (js ''lo'')]"
    unfolding sse_deltas_def complete_lines_def example_lines
    by (simp add: is_terminator_def line_delta_def parse_example_def delta_content_def delta_value_def
        js_def delta_payload_def quoted_def)
  then show ?thesis
    using streamMessage_parser [of parse_example example_reads example_reads] by simp
qed

text \<open>
  Claim C8, as stated, has every line that parses and has a content field yield that
  field. A line whose content is the empty text parses and has the field, and the
  generator yields nothing for it (\<open>if (content)\<close>).
\<close>

theorem streamMessage_empty_delta_counterexample:
  "streamMessage parse_example empty_delta_reads = [] \<and>
   sse_deltas_literal parse_example (concat empty_delta_reads) = [JString []]"
  by (simp add: streamMessage_def pop_def process_line_def sse_deltas_literal_def complete_lines_def
      empty_delta_reads_def is_terminator_def line_delta_literal_def parse_example_def delta_content_def
      delta_value_def js_def delta_payload_def quoted_def Let_def)

section \<open>Properties of the credential obfuscation\<close>

lemma unat_of_nat16: "n < 65536 \<Longrightarrow> unat (of_nat n :: 16 word) = n"
  by (simp add: unat_of_nat)

lemma unat_b64_char:
  "unat (b64_char n) =
     (if n < 26 then 65 + n else if n < 52 then 71 + n else if n < 62 then n - 4
      else if n = 62 then 43 else 47)"
proof -
  have "n < 26 \<Longrightarrow> unat (of_nat (65 + n) :: 16 word) = 65 + n"
    by (rule unat_of_nat16) simp
  moreover have "\<not> n < 26 \<Longrightarrow> n < 52 \<Longrightarrow> unat (of_nat (97 + (n - 26)) :: 16 word) = 71 + n"
    by (subst unat_of_nat16) simp_all
  moreover have "\<not> n < 52 \<Longrightarrow> n < 62 \<Longrightarrow> unat (of_nat (48 + (n - 52)) :: 16 word) = n - 4"
    by (subst unat_of_nat16) simp_all
  ultimately show ?thesis
    unfolding b64_char_def by simp
qed

lemma b64_index_char: "n < 64 \<Longrightarrow> b64_index (b64_char n) = Some n"
  unfolding b64_index_def Let_def unat_b64_char by (simp; arith)

lemma b64_char_plain: "n < 64 \<Longrightarrow> \<not> ascii_whitespace (b64_char n) \<and> b64_char n \<noteq> 61"
proof -
  assume n: "n < 64"
  have "unat (b64_char n) \<notin> {9, 10, 12, 13, 32, 61}"
    unfolding unat_b64_char using n by (simp; arith)
  then show ?thesis
    unfolding ascii_whitespace_def by auto
qed


lemma sextets_bound: "\<forall>b \<in> set bs. b < 256 \<Longrightarrow> \<forall>g \<in> set (sextets bs). g < 64"
proof (induction bs rule: sextets.induct)
  case (1 a b c bs)
  have "a div 4 < 64" "(a mod 4) * 16 + b div 16 < 64" "(b mod 16) * 4 + c div 64 < 64" "c mod 64 < 64"
    using "1.prems" by (simp_all; arith)+
  then show ?case using 1 by simp
next
  case (2 a b)
  have "a div 4 < 64" "(a mod 4) * 16 + b div 16 < 64" "(b mod 16) * 4 < 64"
    using "2.prems" by (simp_all; arith)+
  then show ?case by simp
next
  case (3 a)
  have "a div 4 < 64" "(a mod 4) * 16 < 64"
    using "3.prems" by (simp_all; arith)+
  then show ?case by simp
next
  case 4
  then show ?case by simp
qed

lemma length_sextets: "length (sextets bs) = (4 * length bs + 2) div 3"
  by (induction bs rule: sextets.induct) simp_all

lemma div_pack: "r < m \<Longrightarrow> (q * m + r) div m = (q::nat)"
  by simp

lemma mod_pack: "r < m \<Longrightarrow> (q * m + r) mod m = (r::nat)"
  by simp

lemma high_nibble: "b < 256 \<Longrightarrow> b div 16 < (16::nat)"
  by (simp add: less_mult_imp_div_less)

lemma high_pair: "c < 256 \<Longrightarrow> c div 64 < (4::nat)"
  by (simp add: less_mult_imp_div_less)

lemma octets_block:
  assumes "b < 256" "c < 256"
  shows "a div 4 * 4 + ((a mod 4) * 16 + b div 16) div 16 = (a::nat)"
    and "(((a mod 4) * 16 + b div 16) mod 16) * 16 + ((b mod 16) * 4 + c div 64) div 4 = b"
    and "(((b mod 16) * 4 + c div 64) mod 4) * 64 + c mod 64 = c"
proof -
  have 1: "((a mod 4) * 16 + b div 16) div 16 = a mod 4"
    by (rule div_pack [OF high_nibble [OF assms(1)]])
  have 2: "((a mod 4) * 16 + b div 16) mod 16 = b div 16"
    by (rule mod_pack [OF high_nibble [OF assms(1)]])
  have 3: "((b mod 16) * 4 + c div 64) div 4 = b mod 16"
    by (rule div_pack [OF high_pair [OF assms(2)]])
  have 4: "((b mod 16) * 4 + c div 64) mod 4 = c div 64"
    by (rule mod_pack [OF high_pair [OF assms(2)]])
  show "a div 4 * 4 + ((a mod 4) * 16 + b div 16) div 16 = a"
    unfolding 1 by simp
  show "(((a mod 4) * 16 + b div 16) mod 16) * 16 + ((b mod 16) * 4 + c div 64) div 4 = b"
    unfolding 2 3 by simp
  show "(((b mod 16) * 4 + c div 64) mod 4) * 64 + c mod 64 = c"
    unfolding 4 by simp
qed

lemma octets_sextets: "\<forall>b \<in> set bs. b < 256 \<Longrightarrow> octets (sextets bs) = bs"
proof (induction bs rule: sextets.induct)
  case (1 a b c bs)
  have bc: "b < 256" "c < 256" using "1.prems" by simp_all
  have rest: "octets (sextets bs) = bs" using 1 by simp
  show ?case
    by (simp only: sextets.simps octets.simps append.simps octets_block [OF bc] rest)
next
  case (2 a b)
  have b: "b < 256" using "2.prems" by simp
  have "((b mod 16) * 4) div 4 = b mod 16" by simp
  then show ?case
    using octets_block(1) [OF b b, of a] mod_pack [OF high_nibble [OF b], of "a mod 4"]
    by simp
next
  case (3 a)
  have "a div 4 * 4 + ((a mod 4) * 16) div 16 = a" by simp
  then show ?case by simp
next
  case 4
  then show ?case by simp
qed

lemma indices_chars: "\<forall>g \<in> set gs. g < 64 \<Longrightarrow> indices (map b64_char gs) = Some gs"
  by (induction gs) (simp_all add: b64_index_char)


lemma padding_cases:
  "padding bs = (if length bs mod 3 = 0 then [] else if length bs mod 3 = 1 then [61, 61] else [61])"
proof -
  have "length bs mod 3 = 0 \<or> length bs mod 3 = 1 \<or> length bs mod 3 = 2" by arith
  then show ?thesis
    by (auto simp: padding_def numeral_2_eq_2)
qed

lemma length_encoded: "(length (sextets bs) + length (padding bs)) mod 4 = 0"
  unfolding length_sextets padding_cases by (simp; arith)

lemma length_sextets_mod: "length (sextets bs) mod 4 \<noteq> 1"
  unfolding length_sextets by arith

lemma sextets_padded: "length bs mod 3 \<noteq> 0 \<Longrightarrow> sextets bs \<noteq> []"
  by (cases bs rule: sextets.cases) auto

lemma filter_chars:
  "\<forall>g \<in> set gs. g < 64 \<Longrightarrow> filter (\<lambda>w. \<not> ascii_whitespace w) (map b64_char gs) = map b64_char gs"
  by (induction gs) (simp_all add: b64_char_plain)

lemma filter_padding: "filter (\<lambda>w. \<not> ascii_whitespace w) (padding bs) = padding bs"
  by (simp add: padding_cases ascii_whitespace_def)

lemma strip_padding_none:
  "\<forall>g \<in> set gs. g < 64 \<Longrightarrow> strip_padding (map b64_char gs) = map b64_char gs"
proof (cases "rev gs")
  case Nil
  then show ?thesis by (simp add: strip_padding_def)
next
  case (Cons p r)
  assume b: "\<forall>g \<in> set gs. g < 64"
  have "p \<in> set gs" using Cons by (metis list.set_intros(1) set_rev)
  then have "b64_char p \<noteq> 61" using b b64_char_plain by blast
  then show ?thesis
    using Cons by (cases r) (simp_all add: strip_padding_def rev_map)
qed

lemma strip_padding_one:
  assumes "\<forall>g \<in> set gs. g < 64" "gs \<noteq> []"
  shows "strip_padding (map b64_char gs @ [61]) = map b64_char gs"
proof -
  obtain p r where pr: "rev gs = p # r" using assms(2) by (cases "rev gs") auto
  have "p \<in> set gs" using pr by (metis list.set_intros(1) set_rev)
  then have "b64_char p \<noteq> 61" using assms(1) b64_char_plain by blast
  moreover have "map b64_char gs = rev (map b64_char (p # r))"
    using pr by (metis rev_map rev_rev_ident)
  ultimately show ?thesis
    using pr by (simp add: strip_padding_def rev_map)
qed

lemma strip_padding_two: "strip_padding (xs @ [61, 61]) = xs"
  by (simp add: strip_padding_def)

lemma strip_encoded:
  assumes "\<forall>b \<in> set bs. b < 256"
  shows "strip_padding (map b64_char (sextets bs) @ padding bs) = map b64_char (sextets bs)"
proof -
  note g = sextets_bound [OF assms]
  show ?thesis
    unfolding padding_cases
    using strip_padding_none [OF g] strip_padding_one [OF g sextets_padded] strip_padding_two
    by auto
qed

lemma atob_btoa:
  assumes "\<forall>c \<in> set s. unat c \<le> 255"
  shows "btoa s = Some (map b64_char (sextets (map unat s)) @ padding (map unat s))"
    and "atob (map b64_char (sextets (map unat s)) @ padding (map unat s)) = Some s"
proof -
  let ?bs = "map unat s"
  have bytes: "\<forall>b \<in> set ?bs. b < 256" using assms by auto
  note g = sextets_bound [OF bytes]
  show "btoa s = Some (map b64_char (sextets ?bs) @ padding ?bs)"
    using assms by (auto simp: btoa_def)
  have f: "filter (\<lambda>w. \<not> ascii_whitespace w) (map b64_char (sextets ?bs) @ padding ?bs) =
      map b64_char (sextets ?bs) @ padding ?bs"
    by (simp only: filter_append filter_chars [OF g] filter_padding)
  have l: "length (map b64_char (sextets ?bs) @ padding ?bs) mod 4 = 0"
    using length_encoded [of ?bs] by simp
  have l1: "length (map b64_char (sextets ?bs)) mod 4 \<noteq> 1"
    using length_sextets_mod [of ?bs] by simp
  have restored: "map of_nat (octets (sextets ?bs)) = s"
    unfolding octets_sextets [OF bytes] by (simp add: map_idI)
  show "atob (map b64_char (sextets ?bs) @ padding ?bs) = Some s"
    unfolding atob_def Let_def f
    by (simp only: l strip_encoded [OF bytes] l1 indices_chars [OF g] restored
        simp_thms if_True if_False option.case)
qed


lemma sextets_nonempty: "bs \<noteq> [] \<Longrightarrow> sextets bs \<noteq> []"
  by (cases bs rule: sextets.cases) auto

text \<open>
  Claim C4, amended. For every non-empty key all of whose code units are at most 255
  (a Latin-1 text, as \<open>btoa\<close> requires), \<open>encryptApiKey\<close> returns a non-empty text
  and \<open>decryptApiKey\<close> of it is the key. On a key with a code unit above 255
  \<open>encryptApiKey\<close> throws.
\<close>

theorem obfuscation_round_trip:
  "(key \<noteq> [] \<and> (\<forall>c \<in> set key. unat c \<le> 255) \<longrightarrow>
      (\<exists>encrypted. encryptApiKey key = Some encrypted \<and> encrypted \<noteq> [] \<and>
         decryptApiKey encrypted = key) \<and>
      decrypt_encrypt key = Some key) \<and>
   ((\<exists>c \<in> set key. 255 < unat c) \<longrightarrow>
      encryptApiKey key = None \<and> decrypt_encrypt key = None)"
proof (intro conjI impI)
  assume a: "key \<noteq> [] \<and> (\<forall>c \<in> set key. unat c \<le> 255)"
  let ?e = "map b64_char (sextets (map unat key)) @ padding (map unat key)"
  have low: "\<forall>c \<in> set key. unat c \<le> 255" using a by simp
  have e: "encryptApiKey key = Some (rev ?e)"
    using a atob_btoa(1) [OF low] by (simp add: encryptApiKey_def)
  have ne: "rev ?e \<noteq> []"
    using a sextets_nonempty [of "map unat key"] by simp
  have "decryptApiKey (rev ?e) = (case atob (rev (rev ?e)) of None \<Rightarrow> [] | Some k \<Rightarrow> k)"
    unfolding decryptApiKey_def Let_def using ne by (simp only: if_False)
  then have d: "decryptApiKey (rev ?e) = key"
    by (simp only: rev_rev_ident atob_btoa(2) [OF low] option.case)
  show "\<exists>encrypted. encryptApiKey key = Some encrypted \<and> encrypted \<noteq> [] \<and>
         decryptApiKey encrypted = key"
    using e ne d by blast
  show "decrypt_encrypt key = Some key"
    using e d by (simp add: decrypt_encrypt_def)
next
  assume h: "\<exists>c \<in> set key. 255 < unat c"
  then have k: "key \<noteq> []" by auto
  have b: "btoa key = None" using h by (simp add: btoa_def)
  show "encryptApiKey key = None" using k b by (simp add: encryptApiKey_def)
  then show "decrypt_encrypt key = None" by (simp add: decrypt_encrypt_def)
qed

lemma encrypt_example: "encryptApiKey (js ''sk-abc'') = Some (js ''jJWYts2c'')"
  by (simp add: encryptApiKey_def btoa_def js_def padding_def b64_char_def)

theorem obfuscation_round_trip_witness:
  "encryptApiKey (js ''sk-abc'') = Some (js ''jJWYts2c'') \<and>
   decryptApiKey (js ''jJWYts2c'') = js ''sk-abc'' \<and>
   decrypt_encrypt (js ''sk-abc'') = Some (js ''sk-abc'') \<and>
   encryptApiKey (js ''sk-'' @ [0x20AC]) = None"
proof -
  have h1: "js ''sk-abc'' \<noteq> [] \<and> (\<forall>c \<in> set (js ''sk-abc''). unat c \<le> 255)"
    by (simp add: js_def)
  have h2: "\<exists>c \<in> set (js ''sk-'' @ [0x20AC]). 255 < unat c"
    by (simp add: js_def)
  show ?thesis
    using obfuscation_round_trip [of "js ''sk-abc''"] h1
      obfuscation_round_trip [of "js ''sk-'' @ [0x20AC]"] h2 encrypt_example
    by auto
qed

text \<open>
  Claim C4, as stated, covers every non-empty string. On the one-unit key U+20AC (the
  euro sign) \<open>btoa\<close> throws, and so does \<open>encryptApiKey\<close>: the round trip gives no
  value.
\<close>

theorem obfuscation_round_trip_counterexample:
  "[0x20AC] \<noteq> ([] :: jsstring) \<and> decrypt_encrypt [0x20AC] = None \<and> decrypt_encrypt [0x20AC] \<noteq> Some [0x20AC]"
  by (simp add: decrypt_encrypt_def encryptApiKey_def btoa_def)

section \<open>Properties of the settings load\<close>

text \<open>
  Claim C9. With no backend (the fetch rejects, or answers with a status that is not
  2xx) and a fixed local store, a load leaves the store as it was, and a second load,
  started from the state the first one left, ends in the same state: the same settings
  object, equal to what a load from any other state or under another colour preference
  of the system gives.
\<close>

theorem loadSettings_idempotent:
  "snd (loadSettings localSettings backend prefersDark st) = localSettings \<and>
   loadSettings (snd (loadSettings localSettings Unavailable prefersDark st)) Unavailable prefersDark
       (fst (loadSettings localSettings Unavailable prefersDark st)) =
     loadSettings localSettings Unavailable prefersDark st \<and>
   loadSettings (snd (loadSettings localSettings Not_ok prefersDark st)) Not_ok prefersDark
       (fst (loadSettings localSettings Not_ok prefersDark st)) =
     loadSettings localSettings Not_ok prefersDark st \<and>
   settings (fst (loadSettings localSettings Unavailable prefersDark st)) =
     settings (fst (loadSettings localSettings Unavailable prefersDark' st'))"
  by (simp add: loadSettings_def Let_def)

lemma decrypt_example: "decryptApiKey (js ''jJWYts2c'') = js ''sk-abc''"
  by (simp add: decryptApiKey_def atob_def js_def ascii_whitespace_def strip_padding_def
      b64_index_def Let_def)

theorem loadSettings_idempotent_witness:
  "apiKey (openAI (aiServices (settings (fst (loadSettings (Parsed example_blob) Unavailable True
       initial_settings_state))))) = Some (js ''sk-abc'') \<and>
   theme (settings (fst (loadSettings (Parsed example_blob) Unavailable True initial_settings_state))) = Dark \<and>
   loadSettings (snd (loadSettings (Parsed example_blob) Unavailable True initial_settings_state))
       Unavailable True (fst (loadSettings (Parsed example_blob) Unavailable True initial_settings_state)) =
     loadSettings (Parsed example_blob) Unavailable True initial_settings_state"
proof -
  have "apiKey (openAI (aiServices (settings (fst (loadSettings (Parsed example_blob) Unavailable True
       initial_settings_state))))) = Some (js ''sk-abc'')"
    by (simp add: loadSettings_def Let_def example_blob_def decryptSettings_def decrypt_block_def
        spread_settings_def or_else_def decrypt_example DEFAULT_SETTINGS_def)
  moreover have "theme (settings (fst (loadSettings (Parsed example_blob) Unavailable True
       initial_settings_state))) = Dark"
    by (simp add: loadSettings_def Let_def example_blob_def decryptSettings_def
        spread_settings_def or_else_def)
  moreover have "loadSettings (snd (loadSettings (Parsed example_blob) Unavailable True initial_settings_state))
       Unavailable True (fst (loadSettings (Parsed example_blob) Unavailable True initial_settings_state)) =
     loadSettings (Parsed example_blob) Unavailable True initial_settings_state"
    using loadSettings_idempotent [of "Parsed example_blob" Unavailable True initial_settings_state True
        initial_settings_state]
    by blast
  ultimately show ?thesis
    by blast
qed

section \<open>Properties of the hook\<close>

lemma find_filter_out: "find P (filter (\<lambda>x. \<not> P x) xs) = None"
  by (simp add: find_None_iff)

lemma example_hook_state:
  "fst example_hook =
     \<lparr> sessions = [createAISession ''p1'' OpenAI None 5 ''s1'' ''1/1/1970'' 0,
                   createAISession ''p1'' Aider (Some ''second'') 8 ''s3'' ''1/1/1970'' 1],
       activeSession = Some (createAISession ''p1'' Aider (Some ''second'') 8 ''s3'' ''1/1/1970'' 1),
       isLoading = False, error = None,
       heap = [initial_metadata 5, initial_metadata 8] \<rparr>"
  by (simp add: example_hook_def first_session_def createSession_def Let_def render_of_def
      initial_hook_state_def)

lemma after_delete_state:
  "fst after_delete =
     \<lparr> sessions = [createAISession ''p1'' Aider (Some ''second'') 8 ''s3'' ''1/1/1970'' 1],
       activeSession = Some (createAISession ''p1'' Aider (Some ''second'') 8 ''s3'' ''1/1/1970'' 1),
       isLoading = False, error = None,
       heap = [initial_metadata 5, initial_metadata 8] \<rparr>"
  by (simp add: after_delete_def deleteSession_def Let_def render_of_def example_hook_state
      createAISession_def active_is_def case_prod_unfold)

lemma stale_switch_state:
  "switchSession ''p1'' ''s1'' (render_of (fst example_hook)) after_delete =
     (True,
      (fst after_delete)\<lparr>activeSession := Some (createAISession ''p1'' OpenAI None 5 ''s1'' ''1/1/1970'' 0)\<rparr>,
      snd (setActiveSession_storage ''p1'' ''s1'' (snd after_delete)))"
  by (simp add: switchSession_def render_of_def example_hook_state createAISession_def
      after_delete_state case_prod_unfold)

text \<open>
  Claim C5, as stated, has \<open>switchSession\<close> fail whenever it is called after
  \<open>deleteSession\<close> of the same id. Both are callbacks; when the two calls come from the
  same render, \<open>switchSession\<close> searches the list that render captured, finds the
  deleted session, returns true and makes it the active session, while the list no
  longer holds it.
\<close>

theorem delete_then_switch_counterexample:
  "map sess_id (sessions (fst example_hook)) = [''s1'', ''s3''] \<and>
   map sess_id (sessions (fst after_delete)) = [''s3''] \<and>
   fst (switchSession ''p1'' ''s1'' (render_of (fst example_hook)) after_delete) \<and>
   map_option sess_id
     (activeSession (fst (snd (switchSession ''p1'' ''s1'' (render_of (fst example_hook)) after_delete)))) =
     Some ''s1'' \<and>
   error (fst (snd (switchSession ''p1'' ''s1'' (render_of (fst example_hook)) after_delete))) = None"
  unfolding stale_switch_state
  by (simp add: example_hook_state after_delete_state createAISession_def)

text \<open>
  Claim C5, amended. \<open>deleteSession\<close> of an id returns true and sets the list to the
  list its render captured without the entries of that id. \<open>switchSession\<close> returns true
  exactly when the list its render captured has an entry with the id; otherwise it
  returns false, sets the error \<open>Session not found\<close> and changes nothing else. So for
  every id in the list, \<open>deleteSession\<close> followed by a \<open>switchSession\<close> that is taken
  from the render after the deletion (it captured the list as the deletion left it)
  returns false and sets the error.
\<close>

theorem delete_then_switch_fails:
  "fst (deleteSession pid sessionId r (hs, st)) \<and>
   sessions (fst (snd (deleteSession pid sessionId r (hs, st)))) =
     filter (\<lambda>s. sess_id s \<noteq> sessionId) (captured_sessions r) \<and>
   (fst (switchSession pid sessionId r' (hs', st')) \<longleftrightarrow>
      sessionId \<in> sess_id ` set (captured_sessions r')) \<and>
   (sessionId \<notin> sess_id ` set (captured_sessions r') \<longrightarrow>
      switchSession pid sessionId r' (hs', st') =
        (False, hs'\<lparr>error := Some ''Session not found''\<rparr>, st')) \<and>
   (sessionId \<in> sess_id ` set (captured_sessions r) \<longrightarrow>
      \<not> fst (switchSession pid sessionId
               (render_of (fst (snd (deleteSession pid sessionId r (hs, st)))))
               (snd (deleteSession pid sessionId r (hs, st)))) \<and>
      error (fst (snd (switchSession pid sessionId
               (render_of (fst (snd (deleteSession pid sessionId r (hs, st)))))
               (snd (deleteSession pid sessionId r (hs, st)))))) = Some ''Session not found'')"
proof -
  have none: "find (\<lambda>s. sess_id s = sessionId) xs = None" if "sessionId \<notin> sess_id ` set xs" for xs :: "mem_session list"
    using that by (auto simp: find_None_iff)
  have some: "find (\<lambda>s. sess_id s = sessionId) xs \<noteq> None" if "sessionId \<in> sess_id ` set xs" for xs :: "mem_session list"
    using that by (auto simp: find_None_iff)
  have sw: "fst (switchSession pid sessionId r' (hs', st')) \<longleftrightarrow>
      sessionId \<in> sess_id ` set (captured_sessions r')"
    using none [of "captured_sessions r'"] some [of "captured_sessions r'"]
    by (cases "sessionId \<in> sess_id ` set (captured_sessions r')")
      (auto simp: switchSession_def split: option.splits)
  have nf: "sessionId \<notin> sess_id ` set (captured_sessions r') \<Longrightarrow>
      switchSession pid sessionId r' (hs', st') =
        (False, hs'\<lparr>error := Some ''Session not found''\<rparr>, st')"
    using none [of "captured_sessions r'"] by (simp add: switchSession_def)
  have del: "fst (deleteSession pid sessionId r (hs, st))"
    "sessions (fst (snd (deleteSession pid sessionId r (hs, st)))) =
       filter (\<lambda>s. sess_id s \<noteq> sessionId) (captured_sessions r)"
    by (simp_all add: deleteSession_def Let_def)
  have after: "\<not> fst (switchSession pid sessionId
               (render_of (fst (snd (deleteSession pid sessionId r (hs, st)))))
               (snd (deleteSession pid sessionId r (hs, st)))) \<and>
      error (fst (snd (switchSession pid sessionId
               (render_of (fst (snd (deleteSession pid sessionId r (hs, st)))))
               (snd (deleteSession pid sessionId r (hs, st)))))) = Some ''Session not found''"
    using find_filter_out [of "\<lambda>s. sess_id s = sessionId" "captured_sessions r"]
    by (simp add: switchSession_def deleteSession_def Let_def render_of_def)
  show ?thesis
    using sw nf del after by blast
qed

theorem delete_then_switch_fails_witness:
  "''s1'' \<in> sess_id ` set (captured_sessions (render_of (fst example_hook))) \<and>
   \<not> fst (switchSession ''p1'' ''s1'' (render_of (fst after_delete)) after_delete) \<and>
   error (fst (snd (switchSession ''p1'' ''s1'' (render_of (fst after_delete)) after_delete))) =
     Some ''Session not found'' \<and>
   fst (switchSession ''p1'' ''s3'' (render_of (fst after_delete)) after_delete)"
proof -
  have h1: "''s1'' \<in> sess_id ` set (captured_sessions (render_of (fst example_hook)))"
    by (simp add: render_of_def example_hook_state createAISession_def)
  have h3: "''s3'' \<in> sess_id ` set (captured_sessions (render_of (fst after_delete)))"
    by (simp add: render_of_def after_delete_state createAISession_def)
  note t1 = delete_then_switch_fails [of "''p1''" "''s1''" "render_of (fst example_hook)"
      "fst example_hook" "snd example_hook" "render_of (fst after_delete)" "fst after_delete"
      "snd after_delete", unfolded prod.collapse after_delete_def [symmetric]]
  note t3 = delete_then_switch_fails [of "''p1''" "''s3''" "render_of (fst example_hook)"
      "fst example_hook" "snd example_hook" "render_of (fst after_delete)" "fst after_delete"
      "snd after_delete", unfolded prod.collapse]
  have a: "\<not> fst (switchSession ''p1'' ''s1'' (render_of (fst after_delete)) after_delete) \<and>
      error (fst (snd (switchSession ''p1'' ''s1'' (render_of (fst after_delete)) after_delete))) =
        Some ''Session not found''"
    by (rule mp [OF t1 [THEN conjunct2, THEN conjunct2, THEN conjunct2, THEN conjunct2] h1])
  have b: "fst (switchSession ''p1'' ''s3'' (render_of (fst after_delete)) after_delete)"
    by (rule iffD2 [OF t3 [THEN conjunct2, THEN conjunct2, THEN conjunct1] h3])
  show ?thesis
    using h1 a b by (intro conjI) (elim conjE, assumption)+
qed

lemma with_metadata_simps [simp]:
  "sess_id (with_metadata s md) = sess_id s"
  "title (with_metadata s md) = title s"
  "projectId (with_metadata s md) = projectId s"
  "messages (with_metadata s md) = messages s"
  "updatedAt (with_metadata s md) = updatedAt s"
  "metadata (with_metadata s md) = md"
  "with_metadata (with_metadata s md) md' = with_metadata s md'"
  by (simp_all add: with_metadata_def)

lemma with_metadata_same [simp]: "with_metadata s (metadata s) = s"
  by (simp add: with_metadata_def)


lemma sess_id_snapshot [simp]: "sess_id (snapshot h s) = sess_id s"
  by (simp add: snapshot_def)












subsection \<open>The active session and the list\<close>









lemma own_fields_retitled:
  "own_fields strict x = own_fields strict y \<Longrightarrow>
   own_fields strict (retitled i t x) = own_fields strict (retitled i t y)"
  by (auto simp: own_fields_def seen_def erase_times_def with_metadata_def retitled_def
      split: if_splits)

lemma metadata_with_message [simp]: "metadata (with_message m t s) = metadata s"
  by (simp add: with_message_def)

lemma sess_id_with_message [simp]: "sess_id (with_message m t s) = sess_id s"
  by (simp add: with_message_def)

lemma metadata_retitled [simp]: "metadata (retitled i t s) = metadata s"
  by (simp add: retitled_def)

lemma sess_id_retitled [simp]: "sess_id (retitled i t s) = sess_id s"
  by (simp add: retitled_def)




lemma append_message_eq:
  "append_message m t s h =
     (with_message m t s,
      (case metadata s of
         None \<Rightarrow> h
       | Some a \<Rightarrow> (if a < length h
                    then h[a := update_metadata (Suc (length (messages s))) m t (h ! a)] else h)))"
  by (simp add: append_message_def with_message_def Let_def split: option.splits)


lemma length_snd_append_message [simp]: "length (snd (append_message m t s h)) = length h"
  by (simp add: append_message_eq split: option.splits)

lemma fst_append_message [simp]: "fst (append_message m t s h) = with_message m t s"
  by (simp add: append_message_eq)




lemma addresses_Cons:
  "addresses (s # ss) = (case metadata s of None \<Rightarrow> addresses ss | Some a \<Rightarrow> a # addresses ss)"
  by (simp add: addresses_def List.map_filter_simps split: option.splits)

lemma addresses_Nil [simp]: "addresses [] = []"
  by (simp add: addresses_def List.map_filter_simps)

lemma set_addresses: "set (addresses ss) = {a. \<exists>s \<in> set ss. metadata s = Some a}"
  by (induction ss) (auto simp: addresses_Cons split: option.splits)




lemma addresses_filter:
  "distinct (addresses ss) \<Longrightarrow> distinct (addresses (filter P ss))"
  "list_all Q (addresses ss) \<Longrightarrow> list_all Q (addresses (filter P ss))"
  by (induction ss) (auto simp: addresses_Cons set_addresses split: option.splits)

lemma addresses_append: "addresses (xs @ ys) = addresses xs @ addresses ys"
  by (induction xs) (simp_all add: addresses_Cons split: option.splits)


lemma sharing_ok_iff:
  "sharing_ok strict hs \<longleftrightarrow>
     distinct (addresses (sessions hs)) \<and>
     (\<forall>a \<in> set (addresses (sessions hs)). a < length (heap hs)) \<and>
     (\<forall>a q. activeSession hs = Some a \<longrightarrow> metadata a = Some q \<longrightarrow>
        q < length (heap hs) \<and>
        (\<forall>f \<in> set (sessions hs). metadata f = Some q \<longrightarrow>
           view strict (heap hs) f = view strict (heap hs) a))"
  by (auto simp: sharing_ok_def list_all_iff split: option.splits)






















text \<open>The sharing discipline holds in the initial state of the hook and after every
  \<open>loadSessions\<close>: parsing allocates new objects.\<close>

lemma sharing_ok_initial: "sharing_ok strict initial_hook_state \<and> active_in_list strict initial_hook_state"
  by (simp add: sharing_ok_def active_in_list_def initial_hook_state_def)

lemma alloc_session_range:
  assumes "alloc_session s h = (m, h')"
  shows "length h \<le> length h'"
    and "\<forall>a. metadata m = Some a \<longrightarrow> length h \<le> a \<and> a < length h'"
  using assms by (auto simp: alloc_session_def split: option.splits)

lemma alloc_sessions_range:
  "alloc_sessions ss h = (ms, h') \<Longrightarrow>
     length h \<le> length h' \<and> distinct (addresses ms) \<and>
     (\<forall>a \<in> set (addresses ms). length h \<le> a \<and> a < length h')"
proof (induction ss arbitrary: h ms h')
  case Nil
  then show ?case by simp
next
  case (Cons s ss)
  obtain m h1 where a1: "alloc_session s h = (m, h1)" by (cases "alloc_session s h")
  obtain ms' h2 where a2: "alloc_sessions ss h1 = (ms', h2)" by (cases "alloc_sessions ss h1")
  have r: "ms = m # ms'" "h' = h2" using Cons.prems a1 a2 by simp_all
  note p1 = alloc_session_range [OF a1]
  note ih = Cons.IH [OF a2]
  have "\<forall>a. metadata m = Some a \<longrightarrow> a \<notin> set (addresses ms')"
    using p1(2) ih by fastforce
  then show ?case
    unfolding r using p1 ih by (auto simp: addresses_Cons split: option.splits)
qed

lemma loadSessions_sharing:
  assumes "sharing_ok strict hs"
  shows "sharing_ok strict (fst (loadSessions pid backend (hs, st)))"
proof -
  obtain ls h1 where a1: "alloc_sessions (getSessions pid st) (heap hs) = (ls, h1)"
    by (cases "alloc_sessions (getSessions pid st) (heap hs)")
  let ?act = "(case getActiveSession pid st of
        None \<Rightarrow> (activeSession hs, h1)
      | Some activeSessionId \<Rightarrow>
          (case getSession activeSessionId st of
             None \<Rightarrow> (None, h1)
           | Some activeSessionData \<Rightarrow>
               (case alloc_session activeSessionData h1 of (a, h) \<Rightarrow> (Some a, h))))"
  obtain active1 h2 where a2: "?act = (active1, h2)" by (metis surj_pair)
  note r1 = alloc_sessions_range [OF a1]
  have old: "\<And>a q. activeSession hs = Some a \<Longrightarrow> metadata a = Some q \<Longrightarrow> q < length (heap hs)"
    using assms by (auto simp: sharing_ok_iff)
  have act: "length h1 \<le> length h2 \<and>
      (\<forall>a q. active1 = Some a \<longrightarrow> metadata a = Some q \<longrightarrow>
         q < length h2 \<and> (q < length (heap hs) \<or> length h1 \<le> q))"
  proof (cases "getActiveSession pid st")
    case None
    then have "active1 = activeSession hs" "h2 = h1" using a2 by simp_all
    then show ?thesis using old r1 by fastforce
  next
    case (Some aid)
    show ?thesis
    proof (cases "getSession aid st")
      case None
      then show ?thesis using a2 Some by auto
    next
      case data: (Some d)
      obtain a h where al: "alloc_session d h1 = (a, h)" by (cases "alloc_session d h1")
      have "active1 = Some a" "h2 = h" using a2 Some data al by simp_all
      then show ?thesis using alloc_session_range [OF al] by auto
    qed
  qed
  have local_ok: "distinct (addresses ls)"
    "\<forall>a \<in> set (addresses ls). length (heap hs) \<le> a \<and> a < length h1"
    using r1 by simp_all
  show ?thesis
  proof (cases "\<exists>remote. backend = Body remote")
    case False
    then have res: "fst (loadSessions pid backend (hs, st)) =
        hs\<lparr>isLoading := False, error := None, sessions := ls, activeSession := active1, heap := h2\<rparr>"
      using a1 a2 by (cases backend) (simp_all add: loadSessions_def)
    have "\<forall>a \<in> set (addresses ls). a < length h2" using local_ok(2) act by auto
    moreover have "\<And>a q f. active1 = Some a \<Longrightarrow> metadata a = Some q \<Longrightarrow> f \<in> set ls \<Longrightarrow>
        metadata f \<noteq> Some q"
      using act local_ok(2) by (fastforce simp: set_addresses)
    ultimately show ?thesis
      unfolding res sharing_ok_iff using local_ok(1) act by auto
  next
    case True
    then obtain remote where b: "backend = Body remote" by blast
    obtain bs h3 where a3: "alloc_sessions remote h2 = (bs, h3)"
      by (cases "alloc_sessions remote h2")
    note r3 = alloc_sessions_range [OF a3]
    let ?keep = "filter (\<lambda>l. find (\<lambda>s. sess_id s = sess_id l) bs = None) ls"
    have res: "fst (loadSessions pid backend (hs, st)) =
        hs\<lparr>isLoading := False, error := None, sessions := bs @ ?keep,
           activeSession := active1, heap := h3\<rparr>"
      using a1 a2 a3 b by (simp add: loadSessions_def Let_def)
    have keep: "distinct (addresses ?keep)" "set (addresses ?keep) \<subseteq> set (addresses ls)"
      using addresses_filter(1) [OF local_ok(1)] by (auto simp: set_addresses)
    have dis: "distinct (addresses (bs @ ?keep))"
      using keep r3 local_ok(2) act by (fastforce simp: addresses_append)
    have val: "\<forall>a \<in> set (addresses (bs @ ?keep)). a < length h3"
      using keep(2) r3 local_ok(2) act by (fastforce simp: addresses_append)
    have "\<And>a q f. active1 = Some a \<Longrightarrow> metadata a = Some q \<Longrightarrow> f \<in> set (bs @ ?keep) \<Longrightarrow>
        metadata f \<noteq> Some q"
    proof
      fix a q f
      assume h: "active1 = Some a" "metadata a = Some q" "f \<in> set (bs @ ?keep)" "metadata f = Some q"
      have "q \<in> set (addresses (bs @ ?keep))" using h(3,4) by (auto simp: set_addresses)
      then have "q \<in> set (addresses bs) \<or> q \<in> set (addresses ls)"
        using keep(2) by (auto simp: addresses_append)
      moreover have "q < length h2 \<and> (q < length (heap hs) \<or> length h1 \<le> q)"
        using act h(1,2) by blast
      ultimately show False using r3 local_ok(2) by fastforce
    qed
    moreover have "\<And>a q. active1 = Some a \<Longrightarrow> metadata a = Some q \<Longrightarrow> q < length h3"
      using act r3 by fastforce
    ultimately show ?thesis
      unfolding res sharing_ok_iff using dis val by auto
  qed
qed

end
